theory Spec2Isabelle
  imports Complex_Main "HOL-Library.Sublist"
begin

section \<open>Values\<close>

text \<open>
  The receipt pipeline is written in TypeScript and runs on Bun. Its values are
  modelled as follows.
  \<^item> A \<open>number\<close> is a real: the value of a finite double. \<open>NaN\<close> and the
    infinities have no counterpart, so the falsy numbers are exactly \<open>0\<close>. The
    arithmetic on numbers is the platform's, which rounds, and is a parameter
    (\<open>arithmetic\<close> below).
  \<^item> A string is a \<open>string\<close>: a list of code units, of the 8-bit range.
  \<^item> An optional property (\<open>x?: T\<close>), and a nullable column, is an \<open>option\<close>:
    \<open>None\<close> is \<open>undefined\<close> in an argument and \<open>NULL\<close> in a stored row.
  \<^item> A thrown \<open>Error\<close> is the left summand of a sum, carrying the message.
\<close>

type_synonym number = real

text \<open>The JavaScript operator \<open>x || d\<close> on an optional number and on an optional string.\<close>

definition falsy_number :: "number option \<Rightarrow> bool" where
  "falsy_number x = (case x of None \<Rightarrow> True | Some v \<Rightarrow> v = 0)"

definition falsy_string :: "string option \<Rightarrow> bool" where
  "falsy_string x = (case x of None \<Rightarrow> True | Some v \<Rightarrow> v = [])"

definition number_or_null :: "number option \<Rightarrow> number option" where
  "number_or_null x = (if falsy_number x then None else x)"

definition number_or :: "number option \<Rightarrow> number \<Rightarrow> number" where
  "number_or x d = (if falsy_number x then d else the x)"

definition string_or_null :: "string option \<Rightarrow> string option" where
  "string_or_null x = (if falsy_string x then None else x)"

definition string_or :: "string option \<Rightarrow> string \<Rightarrow> string" where
  "string_or x d = (if falsy_string x then d else the x)"

text \<open>
  The platform's arithmetic: the sum, the difference and the product of two doubles,
  each rounded to a double; the double that the literal \<open>0.05\<close> denotes; and
  \<open>Number.prototype.toFixed(2)\<close>. The literals \<open>0\<close> and \<open>0.5\<close> are doubles, and
  the comparison, the absolute value and the maximum of doubles are those of the
  reals.
\<close>

record arithmetic =
  double_add :: "number \<Rightarrow> number \<Rightarrow> number"
  double_sub :: "number \<Rightarrow> number \<Rightarrow> number"
  double_mul :: "number \<Rightarrow> number \<Rightarrow> number"
  double_0_05 :: number
  toFixed2 :: "number \<Rightarrow> string"

section \<open>Records of the database layer (db/receipts.ts)\<close>

text \<open>
  \<open>interface Receipt\<close> types both the argument of \<open>insertReceipt\<close> and the rows
  that \<open>RETURNING *\<close> and \<open>SELECT *\<close> give back. The field \<open>id\<close> is written
  \<open>id'\<close> here, and \<open>item_id\<close> for an item.
\<close>

record Receipt =
  id' :: "nat option"
  filename :: string
  merchant_name :: "string option"
  receipt_date :: "string option"
  total_amount :: "number option"
  currency :: "string option"
  raw_text :: "string option"
  processed_at :: "string option"
  processing_status :: "string option"

text \<open>
  \<open>Omit<ReceiptItem, "id" | "receipt_id">\<close> is the record \<open>ItemData\<close>, and
  \<open>ReceiptItem\<close> extends it by the two omitted fields.
\<close>

record ItemData =
  item_name :: string
  quantity :: "number option"
  unit_price :: "number option"
  total_price :: number
  category :: "string option"

record ReceiptItem = ItemData +
  item_id :: "nat option"
  receipt_id :: "nat option"

section \<open>The validator (utils/llmProcessor.ts)\<close>

record ExtractedReceiptData =
  merchant_name :: string
  receipt_date :: string
  total_amount :: number
  currency :: string
  items :: "ItemData list"
  confidence :: number

record validation =
  valid :: bool
  issues :: "string list"

text \<open>
  The regular expression \<open>/^\d{4}-\d{2}-\d{2}$/\<close>: a sequence of atoms, each
  matching one code unit, anchored at both ends. It has no flags, so \<open>\d\<close> is an
  ASCII digit and \<open>$\<close> is the end of the string.
\<close>

datatype atom = Digit | Lit char

fun match_atom :: "atom \<Rightarrow> char \<Rightarrow> bool" where
  "match_atom Digit c = (c \<in> set ''0123456789'')"
| "match_atom (Lit l) c = (c = l)"

fun match_atoms :: "atom list \<Rightarrow> string \<Rightarrow> bool" where
  "match_atoms [] [] = True"
| "match_atoms (a # as) (c # cs) = (match_atom a c \<and> match_atoms as cs)"
| "match_atoms _ _ = False"

definition date_regex :: "atom list" where
  "date_regex =
     [Digit, Digit, Digit, Digit, Lit CHR ''-'', Digit, Digit, Lit CHR ''-'', Digit, Digit]"

definition date_regex_test :: "string \<Rightarrow> bool" where
  "date_regex_test s = match_atoms date_regex s"

text \<open>The three messages; the first is built with \<open>toFixed(2)\<close>.\<close>

definition sum_issue :: "arithmetic \<Rightarrow> number \<Rightarrow> number \<Rightarrow> string" where
  "sum_issue ar itemsSum totalAmount =
     ''Items sum ($'' @ toFixed2 ar itemsSum @ '') doesn'' @ [CHR 0x27] @ ''t match total ($''
       @ toFixed2 ar totalAmount @ '')''"

definition items_issue :: string where
  "items_issue = ''No items found in receipt''"

definition date_issue :: string where
  "date_issue = ''Invalid date format (expected YYYY-MM-DD)''"

text \<open>
  \<open>validateReceiptData\<close>: \<open>issues\<close> starts empty and each check pushes at most one
  message, in this order.
\<close>

definition validateReceiptData :: "arithmetic \<Rightarrow> ExtractedReceiptData \<Rightarrow> validation" where
  "validateReceiptData ar data =
     (let itemsSum = foldl (\<lambda>sum item. double_add ar sum (total_price item)) 0 (items data);
          tolerance = max (double_mul ar (double_0_05 ar) (total_amount data)) 0.5;
          difference = \<bar>double_sub ar itemsSum (total_amount data)\<bar>;
          issues1 = (if difference > tolerance
                     then [sum_issue ar itemsSum (total_amount data)] else []);
          issues2 = issues1 @ (if length (items data) = 0 then [items_issue] else []);
          issues3 = issues2 @ (if \<not> date_regex_test (receipt_date data) then [date_issue] else [])
      in \<lparr> valid = (length issues3 = 0), issues = issues3 \<rparr>)"

section \<open>The database (db/index.ts, db/receipts.ts, db/items.ts)\<close>

text \<open>
  The two tables hold their rows in insertion order. Both keys are
  \<open>INTEGER PRIMARY KEY AUTOINCREMENT\<close>: the engine keeps, for each table, the largest
  rowid it ever gave, and a new row gets one more than the larger of that and the
  largest rowid in the table.
\<close>

record database =
  receipts :: "Receipt list"
  receipt_items :: "ReceiptItem list"
  receipts_seq :: nat
  receipt_items_seq :: nat

text \<open>
  A connection is the tables, what \<open>CURRENT_TIMESTAMP\<close> gives, and the engine's
  answers to the coming \<open>INSERT\<close> statements: \<open>Some msg\<close> when the engine refuses
  the statement for a reason of its own (disk full, I/O error), \<open>None\<close> and the empty
  list when it has none. A statement consumes its answer; a rollback restores the
  tables only.
\<close>

record connection =
  tables :: database
  current_timestamp :: string
  faults :: "string option list"

type_synonym 'a db_result = "(string + 'a) \<times> connection"

definition next_fault :: "connection \<Rightarrow> string option \<times> connection" where
  "next_fault c = (case faults c of [] \<Rightarrow> (None, c) | f # fs \<Rightarrow> (f, c\<lparr>faults := fs\<rparr>))"

definition fresh_rowid :: "nat \<Rightarrow> nat option list \<Rightarrow> nat" where
  "fresh_rowid seq ids = Suc (foldr max (map (\<lambda>i. case i of None \<Rightarrow> 0 | Some n \<Rightarrow> n) ids) seq)"

definition next_receipt_id :: "database \<Rightarrow> nat" where
  "next_receipt_id db = fresh_rowid (receipts_seq db) (map id' (receipts db))"

definition next_item_id :: "database \<Rightarrow> nat" where
  "next_item_id db = fresh_rowid (receipt_items_seq db) (map item_id (receipt_items db))"

text \<open>
  \<open>db.transaction(body)()\<close>: the body runs on the connection; when it throws, the
  tables are put back as they were and the error is thrown on. Inside another
  transaction it is a savepoint, which behaves the same way.
\<close>

definition transaction :: "(connection \<Rightarrow> 'a db_result) \<Rightarrow> connection \<Rightarrow> 'a db_result" where
  "transaction body c =
     (case body c of
        (Inl e, c') \<Rightarrow> (Inl e, c'\<lparr>tables := tables c\<rparr>)
      | (Inr v, c') \<Rightarrow> (Inr v, c'))"

text \<open>
  \<open>INSERT INTO receipts (...) VALUES (...) RETURNING *\<close> run by \<open>stmt.get\<close>, on the
  bound parameters. \<open>filename\<close> is \<open>UNIQUE\<close>; \<open>id\<close> and \<open>processed_at\<close> take
  their defaults. The result is the stored row.
\<close>

definition stored_receipt :: "connection \<Rightarrow> Receipt \<Rightarrow> Receipt" where
  "stored_receipt c p =
     p\<lparr>id' := Some (next_receipt_id (tables c)), processed_at := Some (current_timestamp c)\<rparr>"

definition sql_insert_receipt :: "connection \<Rightarrow> Receipt \<Rightarrow> (Receipt option) db_result" where
  "sql_insert_receipt c params =
     (case next_fault c of
        (Some msg, c1) \<Rightarrow> (Inl msg, c1)
      | (None, c1) \<Rightarrow>
          if Receipt.filename params \<in> set (map Receipt.filename (receipts (tables c1)))
          then (Inl ''UNIQUE constraint failed: receipts.filename'', c1)
          else
            (let db = tables c1;
                 rowid = next_receipt_id db;
                 row = stored_receipt c1 params
             in (Inr (Some row),
                 c1\<lparr>tables := db\<lparr>receipts := receipts db @ [row], receipts_seq := rowid\<rparr>\<rparr>)))"

definition insertReceipt :: "connection \<Rightarrow> Receipt \<Rightarrow> Receipt db_result" where
  "insertReceipt c receipt =
     (case sql_insert_receipt c
        \<lparr> id' = None,
          filename = Receipt.filename receipt,
          merchant_name = string_or_null (Receipt.merchant_name receipt),
          receipt_date = string_or_null (Receipt.receipt_date receipt),
          total_amount = number_or_null (Receipt.total_amount receipt),
          currency = Some (string_or (Receipt.currency receipt) ''USD''),
          raw_text = string_or_null (raw_text receipt),
          processed_at = None,
          processing_status = Some (string_or (processing_status receipt) ''pending'') \<rparr> of
        (Inl e, c') \<Rightarrow> (Inl e, c')
      | (Inr result, c') \<Rightarrow>
          (case result of
             None \<Rightarrow> (Inl ''Failed to insert receipt'', c')
           | Some row \<Rightarrow> (Inr row, c')))"

text \<open>\<open>SELECT * FROM receipts WHERE filename = $filename\<close> run by \<open>stmt.get\<close>: the first row, or null.\<close>

definition getReceiptByFilename :: "connection \<Rightarrow> string \<Rightarrow> Receipt option" where
  "getReceiptByFilename c name = find (\<lambda>r. Receipt.filename r = name) (receipts (tables c))"

text \<open>
  \<open>INSERT INTO receipt_items (...) VALUES (...) RETURNING *\<close>. Foreign keys are on
  (\<open>PRAGMA foreign_keys = ON\<close>), so \<open>receipt_id\<close> must be the id of a receipt.
\<close>

definition stored_item :: "connection \<Rightarrow> ReceiptItem \<Rightarrow> ReceiptItem" where
  "stored_item c p = p\<lparr>item_id := Some (next_item_id (tables c))\<rparr>"

definition sql_insert_receipt_item :: "connection \<Rightarrow> ReceiptItem \<Rightarrow> (ReceiptItem option) db_result" where
  "sql_insert_receipt_item c params =
     (case next_fault c of
        (Some msg, c1) \<Rightarrow> (Inl msg, c1)
      | (None, c1) \<Rightarrow>
          if receipt_id params \<notin> set (map id' (receipts (tables c1)))
          then (Inl ''FOREIGN KEY constraint failed'', c1)
          else
            (let db = tables c1;
                 rowid = next_item_id db;
                 row = stored_item c1 params
             in (Inr (Some row),
                 c1\<lparr>tables := db\<lparr>receipt_items := receipt_items db @ [row],
                                   receipt_items_seq := rowid\<rparr>\<rparr>)))"

text \<open>The parameters \<open>insertReceiptItems\<close> binds for one item.\<close>

definition item_params :: "nat \<Rightarrow> ItemData \<Rightarrow> ReceiptItem" where
  "item_params receiptId item =
     \<lparr> item_name = item_name item,
       quantity = Some (number_or (quantity item) 1),
       unit_price = number_or_null (unit_price item),
       total_price = total_price item,
       category = string_or_null (category item),
       item_id = None,
       receipt_id = Some receiptId \<rparr>"

text \<open>The \<open>for\<close> loop of \<open>insertReceiptItems\<close>, with \<open>results\<close> as accumulator.\<close>

fun insert_items_loop ::
  "connection \<Rightarrow> nat \<Rightarrow> ItemData list \<Rightarrow> ReceiptItem list \<Rightarrow> (ReceiptItem list) db_result" where
  "insert_items_loop c receiptId [] results = (Inr results, c)"
| "insert_items_loop c receiptId (item # rest) results =
     (case sql_insert_receipt_item c (item_params receiptId item) of
        (Inl e, c') \<Rightarrow> (Inl e, c')
      | (Inr result, c') \<Rightarrow>
          insert_items_loop c' receiptId rest
            (case result of None \<Rightarrow> results | Some row \<Rightarrow> results @ [row]))"

definition insertReceiptItems :: "connection \<Rightarrow> nat \<Rightarrow> ItemData list \<Rightarrow> (ReceiptItem list) db_result" where
  "insertReceiptItems c receiptId itemsToInsert =
     transaction (\<lambda>c0. insert_items_loop c0 receiptId itemsToInsert []) c"

section \<open>The file system\<close>

text \<open>
  A path names a regular file with its bytes, a directory, or nothing; a path that
  holds a NUL code unit names nothing. Bun's \<open>Bun.file(path)\<close> throws a
  \<open>TypeError\<close> on a path that holds a NUL code unit, and
  \<open>Bun.file(path).exists()\<close> answers true for a regular file and false for a
  directory and for a missing path.
\<close>

datatype node = File string | Directory

type_synonym filesystem = "string \<rightharpoonup> node"

definition has_nul :: "string \<Rightarrow> bool" where
  "has_nul path = (CHR 0x00 \<in> set path)"

definition node_at :: "filesystem \<Rightarrow> string \<Rightarrow> node option" where
  "node_at fs path = (if has_nul path then None else fs path)"

definition bun_exists :: "filesystem \<Rightarrow> string \<Rightarrow> bool" where
  "bun_exists fs path = (case node_at fs path of Some (File bytes) \<Rightarrow> True | _ \<Rightarrow> False)"

section \<open>The platform\<close>

text \<open>
  A request is one call of \<open>openai.chat.completions.create\<close>, given by its user
  message: text only, or a text and the document as a data URL (the system prompts
  are constants). The endpoint is an oracle: its answer to the \<open>n\<close>-th call of the
  run is one of
  \<^item> the call rejects with a message;
  \<^item> the completion has no content;
  \<^item> the content is not JSON and \<open>JSON.parse\<close> throws with a message;
  \<^item> the content parses. The value is cast to \<open>ExtractedReceiptData\<close> unchecked.
    The code tests \<open>merchant_name\<close>, \<open>receipt_date\<close> and \<open>total_amount\<close> for
    absence and nothing else, so these three and \<open>items\<close> are optional here
    (\<open>None\<close> is \<open>undefined\<close> or \<open>null\<close>); where \<open>items\<close> is present it is an
    array of items as declared, and \<open>currency\<close> and \<open>confidence\<close> are as declared.
\<close>

datatype request = Text_request string | Vision_request string string

record json_data =
  json_merchant_name :: "string option"
  json_receipt_date :: "string option"
  json_total_amount :: "number option"
  json_currency :: string
  json_items :: "ItemData list option"
  json_confidence :: number

datatype completion = Rejected string | No_content | Not_json string | Json json_data

type_synonym endpoint = "nat \<Rightarrow> request \<Rightarrow> completion"

text \<open>
  What the code is given by its platform: the environment, the store's directory
  (\<open>join(homedir(), "receipts")\<close>), \<open>path.join\<close> and \<open>path.basename\<close>, the
  pathname of \<open>new URL(s)\<close> (\<open>None\<close> when the constructor throws),
  \<open>decodeURIComponent\<close> (\<open>None\<close> when it throws), the base64 encoder, the
  arithmetic, the endpoint, and the messages of two errors of the engine: the
  \<open>TypeError\<close> of \<open>Bun.file\<close> on a path with a NUL code unit, and the
  \<open>TypeError\<close> of reading \<open>length\<close> of an absent \<open>items\<close>. The code reads the
  environment in three places: \<open>DATABASE_PATH\<close> where the connection is opened,
  \<open>OPENAI_API_KEY\<close> where the client is made, and \<open>ENABLE_VISION_FALLBACK\<close>; the
  first two are behind the connection of the world and the endpoint, which are
  given, and only the third is read from \<open>env\<close> here.
\<close>

record runtime =
  env :: "string \<rightharpoonup> string"
  RECEIPTS_DIR :: string
  path_join :: "string \<Rightarrow> string \<Rightarrow> string"
  path_basename :: "string \<Rightarrow> string"
  url_pathname :: "string \<Rightarrow> string option"
  decodeURIComponent :: "string \<Rightarrow> string option"
  base64 :: "string \<Rightarrow> string"
  arith :: arithmetic
  openai :: endpoint
  nul_path_error :: "string \<Rightarrow> string"
  items_type_error :: string

section \<open>Loading a document (utils/pdfProcessor.ts)\<close>

record Document =
  pageContent :: string
  source :: string
  totalPages :: nat

definition loadPDFDocuments :: "runtime \<Rightarrow> filesystem \<Rightarrow> string \<Rightarrow> string + Document list" where
  "loadPDFDocuments rt fs pdfPath =
     (if has_nul pdfPath then Inl (nul_path_error rt pdfPath)
      else if \<not> bun_exists fs pdfPath then Inl (''PDF file not found: '' @ pdfPath)
      else Inr [\<lparr> pageContent = ''[PDF content - will be extracted via vision]'',
                  source = pdfPath, totalPages = 1 \<rparr>])"

text \<open>
  \<open>convertPDFToBase64\<close> reads the file and encodes it. Reading a path that holds
  no regular file rejects.
\<close>

definition convertPDFToBase64 :: "runtime \<Rightarrow> filesystem \<Rightarrow> string \<Rightarrow> string + string" where
  "convertPDFToBase64 rt fs pdfPath =
     (if has_nul pdfPath then Inl (nul_path_error rt pdfPath)
      else (case node_at fs pdfPath of
              Some (File bytes) \<Rightarrow> Inr (base64 rt bytes)
            | _ \<Rightarrow> Inl (''ENOENT: no such file or directory, open '' @ pdfPath)))"

section \<open>Extraction (utils/llmProcessor.ts)\<close>

text \<open>
  The check on the parsed value, shared by both extraction functions: the value
  itself is returned when the three fields are there.
\<close>

definition checked_data :: "string \<Rightarrow> json_data \<Rightarrow> string + json_data" where
  "checked_data incomplete d =
     (if falsy_string (json_merchant_name d) \<or> falsy_string (json_receipt_date d)
         \<or> json_total_amount d = None
      then Inl incomplete
      else Inr d)"

text \<open>
  Both functions return the parsed value, or the wrapped error, and the list of
  requests made so far, with theirs added.
\<close>

definition extractReceiptData ::
  "endpoint \<Rightarrow> request list \<Rightarrow> string \<Rightarrow> (string + json_data) \<times> request list" where
  "extractReceiptData ep made text =
     (let req = Text_request (''Extract receipt data from:'' @ [CHR 0x0A, CHR 0x0A] @ text);
          tried =
            (case ep (length made) req of
               Rejected msg \<Rightarrow> Inl msg
             | No_content \<Rightarrow> Inl ''No response from OpenAI''
             | Not_json msg \<Rightarrow> Inl msg
             | Json d \<Rightarrow> checked_data ''Incomplete receipt data extracted'' d)
      in (case tried of
            Inl msg \<Rightarrow> Inl (''Failed to extract receipt data: '' @ msg)
          | Inr d \<Rightarrow> Inr d,
          made @ [req]))"

definition vision_request :: "string \<Rightarrow> string option \<Rightarrow> request" where
  "vision_request pdfBase64 fallbackText =
     Vision_request
       (if falsy_string fallbackText
        then ''Analyze this receipt image and extract all receipt data.''
        else ''Analyze this receipt image. Here'' @ [CHR 0x27]
          @ ''s some extracted text for context (may be incomplete):'' @ [CHR 0x0A, CHR 0x0A]
          @ the fallbackText @ [CHR 0x0A, CHR 0x0A]
          @ ''Please correct any errors and extract complete receipt data from the image.'')
       (''data:application/pdf;base64,'' @ pdfBase64)"

definition extractReceiptDataWithVision ::
  "endpoint \<Rightarrow> request list \<Rightarrow> string \<Rightarrow> string option
     \<Rightarrow> (string + json_data) \<times> request list" where
  "extractReceiptDataWithVision ep made pdfBase64 fallbackText =
     (let req = vision_request pdfBase64 fallbackText;
          tried =
            (case ep (length made) req of
               Rejected msg \<Rightarrow> Inl msg
             | No_content \<Rightarrow> Inl ''No response from OpenAI Vision''
             | Not_json msg \<Rightarrow> Inl msg
             | Json d \<Rightarrow> checked_data ''Incomplete receipt data extracted from vision'' d)
      in (case tried of
            Inl msg \<Rightarrow> Inl (''Failed to extract receipt data with vision: '' @ msg)
          | Inr d \<Rightarrow> Inr d,
          made @ [req]))"

text \<open>
  A checked value whose \<open>items\<close> is an array, read at its declared type.
\<close>

definition declared_data :: "json_data \<Rightarrow> ItemData list \<Rightarrow> ExtractedReceiptData" where
  "declared_data d its =
     \<lparr> merchant_name = the (json_merchant_name d),
       receipt_date = the (json_receipt_date d),
       total_amount = the (json_total_amount d),
       currency = json_currency d,
       items = its,
       confidence = json_confidence d \<rparr>"

section \<open>The orchestrator (utils/receiptProcessor.ts)\<close>

record ProcessingResult =
  success :: bool
  filename :: string
  receiptId :: "nat option"
  message :: string
  usedVision :: bool
  textQuality :: "number option"
  extractedData :: "ExtractedReceiptData option"
  validationIssues :: "string list option"

text \<open>
  What a run of the orchestrator reads and changes: the connection that
  \<open>getDatabase()\<close> returns, the file system, and the calls of the client's
  \<open>chat.completions.create\<close> made so far, one entry for each call (what the
  client sends over the network for one call is not part of the model).
\<close>

record world =
  conn :: connection
  files :: filesystem
  sent :: "request list"

definition QUALITY_THRESHOLD :: number where
  "QUALITY_THRESHOLD = 80"

definition ENABLE_VISION_FALLBACK :: "runtime \<Rightarrow> bool" where
  "ENABLE_VISION_FALLBACK rt = (env rt ''ENABLE_VISION_FALLBACK'' \<noteq> Some ''false'')"

definition getReceiptsDir :: "runtime \<Rightarrow> string" where
  "getReceiptsDir rt = RECEIPTS_DIR rt"

text \<open>The receipt that \<open>processReceipt\<close> hands to \<open>insertReceipt\<close>.\<close>

definition receipt_of :: "string \<Rightarrow> ExtractedReceiptData \<Rightarrow> validation \<Rightarrow> Receipt" where
  "receipt_of name extracted validated =
     \<lparr> id' = None,
       filename = name,
       merchant_name = Some (merchant_name extracted),
       receipt_date = Some (receipt_date extracted),
       total_amount = Some (total_amount extracted),
       currency = Some (currency extracted),
       raw_text = Some [],
       processed_at = None,
       processing_status = Some (if valid validated then ''complete'' else ''needs_review'') \<rparr>"

text \<open>The body of \<open>insertTransaction\<close>, and the transaction itself.\<close>

definition insertTransaction_body ::
  "string \<Rightarrow> ExtractedReceiptData \<Rightarrow> validation \<Rightarrow> connection \<Rightarrow> nat db_result" where
  "insertTransaction_body name extracted validated c =
     (case insertReceipt c (receipt_of name extracted validated) of
        (Inl e, c1) \<Rightarrow> (Inl e, c1)
      | (Inr receipt, c1) \<Rightarrow>
          (case id' receipt of
             None \<Rightarrow> (Inl ''Failed to insert receipt'', c1)
           | Some rid \<Rightarrow>
               if rid = 0 then (Inl ''Failed to insert receipt'', c1)
               else if length (items extracted) > 0
               then (case insertReceiptItems c1 rid (items extracted) of
                       (Inl e, c2) \<Rightarrow> (Inl e, c2)
                     | (Inr rows, c2) \<Rightarrow> (Inr rid, c2))
               else (Inr rid, c1)))"

definition insertTransaction ::
  "string \<Rightarrow> ExtractedReceiptData \<Rightarrow> validation \<Rightarrow> connection \<Rightarrow> nat db_result" where
  "insertTransaction name extracted validated c =
     transaction (insertTransaction_body name extracted validated) c"

text \<open>
  The \<open>try\<close> block of \<open>processReceipt\<close>: the result it returns, or the message of
  the error thrown in it, and the world it leaves. After the extraction the code
  logs \<open>extractedData.items.length\<close>, which throws when \<open>items\<close> is absent.
\<close>

definition processReceipt_try ::
  "runtime \<Rightarrow> world \<Rightarrow> string \<Rightarrow> (string + ProcessingResult) \<times> world" where
  "processReceipt_try rt w name =
     (let receiptsDir = getReceiptsDir rt;
          pdfPath = path_join rt receiptsDir name
      in case getReceiptByFilename (conn w) name of
           Some existing \<Rightarrow>
             (Inr \<lparr> success = False, filename = name, receiptId = id' existing,
                    message = ''Receipt already processed'', usedVision = False,
                    textQuality = None, extractedData = None, validationIssues = None \<rparr>,
              w)
         | None \<Rightarrow>
             (case loadPDFDocuments rt (files w) pdfPath of
                Inl e \<Rightarrow> (Inl e, w)
              | Inr docs \<Rightarrow>
                  if length docs = 0 then (Inl ''No content found in PDF'', w)
                  else
                    (case convertPDFToBase64 rt (files w) pdfPath of
                       Inl e \<Rightarrow> (Inl e, w)
                     | Inr pdfBase64 \<Rightarrow>
                         (case extractReceiptDataWithVision (openai rt) (sent w) pdfBase64 (Some []) of
                            (Inl e, sent1) \<Rightarrow> (Inl e, w\<lparr>sent := sent1\<rparr>)
                          | (Inr parsed, sent1) \<Rightarrow>
                              (case json_items parsed of
                                 None \<Rightarrow> (Inl (items_type_error rt), w\<lparr>sent := sent1\<rparr>)
                               | Some its \<Rightarrow>
                                   (let extracted = declared_data parsed its;
                                        usedVision1 = True;
                                        validated = validateReceiptData (arith rt) extracted
                                    in case insertTransaction name extracted validated (conn w) of
                                         (Inl e, c1) \<Rightarrow> (Inl e, w\<lparr>conn := c1, sent := sent1\<rparr>)
                                       | (Inr rid, c1) \<Rightarrow>
                                           (Inr \<lparr> success = True, filename = name,
                                                  receiptId = Some rid,
                                                  message =
                                                    (if valid validated
                                                     then ''Receipt processed successfully''
                                                     else ''Receipt processed with validation issues''),
                                                  usedVision = usedVision1,
                                                  textQuality = None,
                                                  extractedData = Some extracted,
                                                  validationIssues = Some (issues validated) \<rparr>,
                                            w\<lparr>conn := c1, sent := sent1\<rparr>)))))))"

text \<open>\<open>processReceipt\<close>: the \<open>try\<close> block, and the \<open>catch\<close> that turns an error into a result.\<close>

definition processReceipt :: "runtime \<Rightarrow> world \<Rightarrow> string \<Rightarrow> ProcessingResult \<times> world" where
  "processReceipt rt w name =
     (case processReceipt_try rt w name of
        (Inr result, w1) \<Rightarrow> (result, w1)
      | (Inl error_message, w1) \<Rightarrow>
          (\<lparr> success = False, filename = name, receiptId = None, message = error_message,
             usedVision = False, textQuality = None, extractedData = None,
             validationIssues = None \<rparr>,
           w1))"



section \<open>The receipt store (utils/receipts.ts)\<close>

text \<open>
  \<open>BunFile.size\<close> is declared a \<open>number\<close>: it is the length of a regular file,
  and a number for every other path too (given as \<open>0\<close> here), never \<open>undefined\<close>.
\<close>

datatype size_value = Undefined | Bytes nat

definition bun_size :: "filesystem \<Rightarrow> string \<Rightarrow> size_value" where
  "bun_size fs path =
     (case node_at fs path of Some (File bytes) \<Rightarrow> Bytes (length bytes) | _ \<Rightarrow> Bytes 0)"

definition file_bytes :: "filesystem \<Rightarrow> string \<Rightarrow> string" where
  "file_bytes fs path = (case node_at fs path of Some (File bytes) \<Rightarrow> bytes | _ \<Rightarrow> [])"

text \<open>
  What the platform answers to the three steps of the move: the copy
  \<open>Bun.write(destPath, sourceFile)\<close> and the clearing \<open>Bun.write(sourcePath, "")\<close>
  each resolve (\<open>None\<close>) or reject with a message, leaving the file as it was; \<open>rm\<close>
  removes the file, or exits with a failure status and removes nothing (the exit
  status is not read), or cannot be spawned, which throws. A copy onto a directory
  rejects.
\<close>

datatype rm_result = Rm_removed | Rm_refused | Spawn_failed string

record io_outcomes =
  copy_error :: "string option"
  clear_error :: "string option"
  rm_outcome :: rm_result

text \<open>The step that removes the source failed: the clearing write, or \<open>rm\<close>.\<close>

definition removal_failed :: "io_outcomes \<Rightarrow> bool" where
  "removal_failed io = (clear_error io \<noteq> None \<or> rm_outcome io \<noteq> Rm_removed)"

text \<open>
  \<open>moveFileToReceipts\<close>. The two calls of \<open>Bun.file\<close> are outside the \<open>try\<close>, so
  their \<open>TypeError\<close> is thrown as it is.
\<close>

definition moveFileToReceipts ::
  "runtime \<Rightarrow> io_outcomes \<Rightarrow> filesystem \<Rightarrow> string \<Rightarrow> (string + string) \<times> filesystem" where
  "moveFileToReceipts rt io fs sourcePath =
     (if has_nul sourcePath then (Inl (nul_path_error rt sourcePath), fs)
      else if \<not> bun_exists fs sourcePath
      then (Inl (''Source file does not exist: '' @ sourcePath), fs)
      else if bun_size fs sourcePath = Undefined
      then (Inl (''Source is not a file: '' @ sourcePath), fs)
      else
        (let name = path_basename rt sourcePath;
             destPath = path_join rt (RECEIPTS_DIR rt) name
         in if has_nul destPath then (Inl (nul_path_error rt destPath), fs)
            else if bun_exists fs destPath
            then (Inl (''File already exists in receipts: '' @ name), fs)
            else
              (case (if fs destPath = Some Directory
                     then Some (''EISDIR: illegal operation on a directory, open '' @ destPath)
                     else copy_error io) of
                 Some msg \<Rightarrow> (Inl (''Failed to move file: '' @ msg), fs)
               | None \<Rightarrow>
                   (let fs1 = fs(destPath \<mapsto> File (file_bytes fs sourcePath))
                    in case clear_error io of
                         Some msg \<Rightarrow> (Inl (''Failed to move file: '' @ msg), fs1)
                       | None \<Rightarrow>
                           (let fs2 = fs1(sourcePath \<mapsto> File [])
                            in case rm_outcome io of
                                 Spawn_failed msg \<Rightarrow> (Inl (''Failed to move file: '' @ msg), fs2)
                               | Rm_refused \<Rightarrow> (Inr name, fs2)
                               | Rm_removed \<Rightarrow> (Inr name, fs2(sourcePath := None)))))))"

section \<open>The path resolver (utils/fileParser.ts)\<close>

text \<open>
  \<open>String.prototype.trim\<close> removes white space and line terminators at both ends;
  these are the ones among the code units of the model.
\<close>

definition is_white_space :: "char \<Rightarrow> bool" where
  "is_white_space c =
     (c \<in> set [CHR 0x09, CHR 0x0A, CHR 0x0B, CHR 0x0C, CHR 0x0D, CHR 0x20, CHR 0xA0])"

definition trim :: "string \<Rightarrow> string" where
  "trim s = rev (dropWhile is_white_space (rev (dropWhile is_white_space s)))"

text \<open>The pieces of a string between its line feeds, one more than there are line feeds.\<close>

fun split_newline :: "string \<Rightarrow> string list" where
  "split_newline [] = [[]]"
| "split_newline (c # cs) =
     (if c = CHR 0x0A then [] # split_newline cs
      else (case split_newline cs of
              [] \<Rightarrow> [[c]]
            | piece # pieces \<Rightarrow> (c # piece) # pieces))"

text \<open>\<open>line.includes(needle)\<close>.\<close>

fun string_includes :: "string \<Rightarrow> string \<Rightarrow> bool" where
  "string_includes needle [] = (needle = [])"
| "string_includes needle (c # cs) = (prefix needle (c # cs) \<or> string_includes needle cs)"

text \<open>The global replacement: every backslash followed by a space becomes a space.\<close>

fun unescape_spaces :: "string \<Rightarrow> string" where
  "unescape_spaces (a # b # cs) =
     (if a = CHR 0x5C \<and> b = CHR 0x20 then CHR 0x20 # unescape_spaces cs
      else a # unescape_spaces (b # cs))"
| "unescape_spaces cs = cs"

text \<open>
  One turn of the first loop pushes exactly one path. The URL branch is taken when
  the line starts with \<open>file://\<close> and neither \<open>new URL\<close> nor
  \<open>decodeURIComponent\<close> throws; otherwise the line falls through to the other
  branches. \<open>line.slice(1, -1)\<close> drops the first and the last code unit.
\<close>

definition line_path :: "runtime \<Rightarrow> string \<Rightarrow> string" where
  "line_path rt line =
     (case (if prefix ''file://'' line
            then (case url_pathname rt line of
                    None \<Rightarrow> None
                  | Some pathname \<Rightarrow> decodeURIComponent rt pathname)
            else None) of
        Some decodedPath \<Rightarrow> decodedPath
      | None \<Rightarrow>
          if (prefix [CHR 0x22] line \<and> suffix [CHR 0x22] line)
             \<or> (prefix [CHR 0x27] line \<and> suffix [CHR 0x27] line)
          then butlast (tl line)
          else if string_includes [CHR 0x5C, CHR 0x20] line then unescape_spaces line
          else if string_includes [CHR 0x20] line \<and> \<not> prefix ''/'' line then line
          else line)"

fun paths_loop :: "runtime \<Rightarrow> string list \<Rightarrow> string list \<Rightarrow> string list" where
  "paths_loop rt [] paths = paths"
| "paths_loop rt (line # rest) paths = paths_loop rt rest (paths @ [line_path rt line])"

text \<open>
  The second loop. \<open>Bun.file(path)\<close> is outside any \<open>try\<close>: its \<open>TypeError\<close> on a
  path with a NUL code unit ends the loop and the function.
\<close>

fun existing_loop :: "runtime \<Rightarrow> filesystem \<Rightarrow> string list \<Rightarrow> string list \<Rightarrow> string + string list" where
  "existing_loop rt fs [] existingPaths = Inr existingPaths"
| "existing_loop rt fs (path # rest) existingPaths =
     (if has_nul path then Inl (nul_path_error rt path)
      else existing_loop rt fs rest
             (if bun_exists fs path then existingPaths @ [path] else existingPaths))"

text \<open>The array \<open>paths\<close> of \<open>parseFilePaths\<close> after its first loop.\<close>

definition candidate_paths :: "runtime \<Rightarrow> string \<Rightarrow> string list" where
  "candidate_paths rt pastedText =
     (let trimmed = trim pastedText;
          lines = filter (\<lambda>line. length line > 0) (map trim (split_newline trimmed))
      in paths_loop rt lines [])"

text \<open>
  \<open>parseFilePaths\<close>: the list it returns, or the message of the error it throws.
  The calls of the first loop that can throw are inside a \<open>try\<close>.
\<close>

definition parseFilePaths :: "runtime \<Rightarrow> filesystem \<Rightarrow> string \<Rightarrow> string + string list" where
  "parseFilePaths rt fs pastedText =
     (let trimmed = trim pastedText
      in if trimmed = [] then Inr []
         else existing_loop rt fs (candidate_paths rt pastedText) [])"

text \<open>The header row that the transaction stores.\<close>

definition header_row :: "connection \<Rightarrow> string \<Rightarrow> ExtractedReceiptData \<Rightarrow> validation \<Rightarrow> Receipt" where
  "header_row c name extracted validated =
     \<lparr> id' = Some (next_receipt_id (tables c)),
       filename = name,
       merchant_name = (if merchant_name extracted = [] then None else Some (merchant_name extracted)),
       receipt_date = (if receipt_date extracted = [] then None else Some (receipt_date extracted)),
       total_amount = (if total_amount extracted = 0 then None else Some (total_amount extracted)),
       currency = Some (if currency extracted = [] then ''USD'' else currency extracted),
       raw_text = None,
       processed_at = Some (current_timestamp c),
       processing_status = Some (if valid validated then ''complete'' else ''needs_review'') \<rparr>"

section \<open>Example inputs\<close>

definition empty_connection :: connection where
  "empty_connection =
     \<lparr> tables = \<lparr> receipts = [], receipt_items = [], receipts_seq = 0, receipt_items_seq = 0 \<rparr>,
       current_timestamp = ''2024-01-12 10:00:00'',
       faults = [] \<rparr>"

definition free_receipt :: Receipt where
  "free_receipt =
     \<lparr> id' = None, filename = ''free.pdf'', merchant_name = Some ''Cafe X'',
       receipt_date = Some ''2024-01-12'', total_amount = Some 0, currency = None,
       raw_text = None, processed_at = None, processing_status = None \<rparr>"

definition free_receipt_row :: Receipt where
  "free_receipt_row =
     \<lparr> id' = Some 1, filename = ''free.pdf'', merchant_name = Some ''Cafe X'',
       receipt_date = Some ''2024-01-12'', total_amount = None, currency = Some ''USD'',
       raw_text = None, processed_at = Some ''2024-01-12 10:00:00'',
       processing_status = Some ''pending'' \<rparr>"

definition one_receipt_connection :: connection where
  "one_receipt_connection =
     empty_connection\<lparr>tables := \<lparr> receipts = [free_receipt_row], receipt_items = [],
        receipts_seq = 1, receipt_items_seq = 0 \<rparr>\<rparr>"

definition coffee :: ItemData where
  "coffee = \<lparr> item_name = ''Coffee'', quantity = Some 0, unit_price = Some 0,
     total_price = 5.5, category = None \<rparr>"

definition bagel :: ItemData where
  "bagel = \<lparr> item_name = ''Bagel'', quantity = None, unit_price = None,
     total_price = 3, category = Some ''food'' \<rparr>"

definition coffee_row :: ReceiptItem where
  "coffee_row = \<lparr> item_name = ''Coffee'', quantity = Some 1, unit_price = None,
     total_price = 5.5, category = None, item_id = Some 1, receipt_id = Some 1 \<rparr>"

definition bagel_row :: ReceiptItem where
  "bagel_row = \<lparr> item_name = ''Bagel'', quantity = Some 1, unit_price = None,
     total_price = 3, category = Some ''food'', item_id = Some 2, receipt_id = Some 1 \<rparr>"

definition cafe_item :: ItemData where
  "cafe_item = \<lparr> item_name = ''Espresso'', quantity = Some 1, unit_price = Some 2,
     total_price = 2, category = None \<rparr>"

definition cafe_json :: json_data where
  "cafe_json = \<lparr> json_merchant_name = Some ''Cafe X'', json_receipt_date = Some ''2024-01-12'',
     json_total_amount = Some 10, json_currency = ''USD'', json_items = Some [cafe_item],
     json_confidence = 90 \<rparr>"

definition cafe_data :: ExtractedReceiptData where
  "cafe_data = \<lparr> merchant_name = ''Cafe X'', receipt_date = ''2024-01-12'',
     total_amount = 10, currency = ''USD'', items = [cafe_item], confidence = 90 \<rparr>"

definition cafe_validation :: validation where
  "cafe_validation =
     \<lparr> valid = False,
       issues = [''Items sum ($2.00) doesn'' @ [CHR 0x27] @ ''t match total ($10.00)''] \<rparr>"

definition cafe_row :: Receipt where
  "cafe_row =
     \<lparr> id' = Some 1, filename = ''cafe.pdf'', merchant_name = Some ''Cafe X'',
       receipt_date = Some ''2024-01-12'', total_amount = Some 10, currency = Some ''USD'',
       raw_text = None, processed_at = Some ''2024-01-12 10:00:00'',
       processing_status = Some ''needs_review'' \<rparr>"

definition cafe_item_row :: ReceiptItem where
  "cafe_item_row = \<lparr> item_name = ''Espresso'', quantity = Some 1, unit_price = Some 2,
     total_price = 2, category = None, item_id = Some 1, receipt_id = Some 1 \<rparr>"

definition cafe_request :: request where
  "cafe_request = Vision_request ''Analyze this receipt image and extract all receipt data.''
     ''data:application/pdf;base64,JVBERg==''"

text \<open>
  Exact arithmetic, with \<open>toFixed(2)\<close> given on the values the examples use; on
  these values the doubles agree with it.
\<close>

definition exact_arithmetic :: arithmetic where
  "exact_arithmetic =
     \<lparr> double_add = (\<lambda>a b. a + b),
       double_sub = (\<lambda>a b. a - b),
       double_mul = (\<lambda>a b. a * b),
       double_0_05 = 0.05,
       toFixed2 = (\<lambda>x. if x = 2 then ''2.00'' else if x = 10 then ''10.00''
                    else if x = 1.53 then ''1.53''
                    else if x = 2.0300000000000002 then ''2.03'' else []) \<rparr>"

text \<open>
  An arithmetic that rounds as the doubles do on \<open>0.5 + 1.53\<close>, whose sum as a
  double is \<open>2.0300000000000002\<close>.
\<close>

definition rounding_arithmetic :: arithmetic where
  "rounding_arithmetic =
     exact_arithmetic\<lparr>double_add :=
       (\<lambda>a b. if a = 0.5 \<and> b = 1.53 then 2.0300000000000002 else a + b)\<rparr>"

definition rounding_data :: ExtractedReceiptData where
  "rounding_data =
     \<lparr> merchant_name = ''Cafe X'', receipt_date = ''2024-01-12'', total_amount = 1.53,
       currency = ''USD'',
       items = [\<lparr> item_name = ''Tip'', quantity = Some 1, unit_price = None,
                   total_price = 0.5, category = None \<rparr>,
                \<lparr> item_name = ''Tea'', quantity = Some 1, unit_price = None,
                   total_price = 1.53, category = None \<rparr>],
       confidence = 90 \<rparr>"

text \<open>
  A runtime with the vision fallback switched off in the environment; its path
  and URL functions and its encoder are given on the values the examples use, and
  its endpoint answers every request with the same receipt.
\<close>

definition vision_off :: runtime where
  "vision_off =
     \<lparr> env = [''ENABLE_VISION_FALLBACK'' \<mapsto> ''false''],
       RECEIPTS_DIR = ''/home/u/receipts'',
       path_join = (\<lambda>dir name. dir @ ''/'' @ name),
       path_basename = (\<lambda>path. rev (takeWhile (\<lambda>c. c \<noteq> CHR ''/'') (rev path))),
       url_pathname = (\<lambda>url. Some (drop 7 url)),
       decodeURIComponent = Some,
       base64 = (\<lambda>bytes. if bytes = ''%PDF'' then ''JVBERg=='' else []),
       arith = exact_arithmetic,
       openai = (\<lambda>n req. Json cafe_json),
       nul_path_error = (\<lambda>path. ''The argument must be a string without null bytes''),
       items_type_error = ''undefined is not an object'' \<rparr>"

text \<open>The same runtime, with an endpoint whose answer has no \<open>items\<close>.\<close>

definition no_items_runtime :: runtime where
  "no_items_runtime =
     vision_off\<lparr>openai := (\<lambda>n req. Json (cafe_json\<lparr>json_items := None\<rparr>))\<rparr>"

definition no_items_result :: ProcessingResult where
  "no_items_result =
     \<lparr> success = False, filename = ''cafe.pdf'', receiptId = None,
       message = ''undefined is not an object'', usedVision = False,
       textQuality = None, extractedData = None, validationIssues = None \<rparr>"

definition cafe_world :: world where
  "cafe_world =
     \<lparr> conn = empty_connection,
       files = [''/home/u/receipts/cafe.pdf'' \<mapsto> File ''%PDF''],
       sent = [] \<rparr>"

definition cafe_connection :: connection where
  "cafe_connection =
     empty_connection\<lparr>tables := \<lparr> receipts = [cafe_row], receipt_items = [cafe_item_row],
        receipts_seq = 1, receipt_items_seq = 1 \<rparr>\<rparr>"

definition cafe_world_processed :: world where
  "cafe_world_processed = cafe_world\<lparr>conn := cafe_connection, sent := [cafe_request]\<rparr>"

definition cafe_result :: ProcessingResult where
  "cafe_result =
     \<lparr> success = True, filename = ''cafe.pdf'', receiptId = Some 1,
       message = ''Receipt processed with validation issues'', usedVision = True,
       textQuality = None, extractedData = Some cafe_data,
       validationIssues = Some (issues cafe_validation) \<rparr>"


definition scans_fs :: filesystem where
  "scans_fs = [''/tmp/scans'' \<mapsto> Directory]"

definition io_ok :: io_outcomes where
  "io_ok = \<lparr> copy_error = None, clear_error = None, rm_outcome = Rm_removed \<rparr>"

definition io_clear_fails :: io_outcomes where
  "io_clear_fails = \<lparr> copy_error = None, clear_error = Some ''EACCES: permission denied'',
     rm_outcome = Rm_removed \<rparr>"

definition inbox_fs :: filesystem where
  "inbox_fs = [''/tmp/a.pdf'' \<mapsto> File ''%PDF'']"

definition pasted_paths :: string where
  "pasted_paths = ''  /tmp/a.pdf'' @ [CHR 0x0A] @ ''/tmp/nope.pdf'' @ [CHR 0x0A, CHR 0x0A]
     @ ''/tmp/a.pdf '' @ [CHR 0x0A]"

definition pasted_blank :: string where
  "pasted_blank = ''   '' @ [CHR 0x0A] @ ''  '' @ [CHR 0x09] @ ''  ''"

definition pasted_nul :: string where
  "pasted_nul = ''/tmp/nope.pdf'' @ [CHR 0x00]"

section \<open>Properties of the validator\<close>










text \<open>
  The validator on the example receipts: items of 2.00 against a total of 10.00,
  and, in the arithmetic that rounds, items of 0.50 and 1.53 against a total of 1.53,
  whose sum as doubles differs from the total by more than 0.5.
\<close>

lemma cafe_validated: "validateReceiptData (arith vision_off) cafe_data = cafe_validation"
  by (simp add: validateReceiptData_def sum_issue_def vision_off_def exact_arithmetic_def
      cafe_data_def cafe_item_def cafe_validation_def date_regex_test_def date_regex_def Let_def)

lemma rounding_validated:
  "validateReceiptData rounding_arithmetic rounding_data =
     \<lparr> valid = False,
       issues = [''Items sum ($2.03) doesn'' @ [CHR 0x27] @ ''t match total ($1.53)''] \<rparr>"
  by (simp add: validateReceiptData_def sum_issue_def rounding_arithmetic_def
      exact_arithmetic_def rounding_data_def date_regex_test_def date_regex_def Let_def)


section \<open>Properties of the database layer\<close>

lemma foldr_max_ge: "n \<in> set ns \<Longrightarrow> n \<le> foldr max ns (s::nat)"
  by (induction ns) auto

lemma fresh_rowid_fresh: "Some (fresh_rowid seq ids) \<notin> set ids"
proof
  assume "Some (fresh_rowid seq ids) \<in> set ids"
  then have "fresh_rowid seq ids \<in> set (map (\<lambda>i. case i of None \<Rightarrow> 0 | Some n \<Rightarrow> n) ids)"
    by force
  then have "fresh_rowid seq ids \<le> foldr max (map (\<lambda>i. case i of None \<Rightarrow> 0 | Some n \<Rightarrow> n) ids) seq"
    by (rule foldr_max_ge)
  then show False by (simp add: fresh_rowid_def)
qed

lemma fresh_rowid_pos: "0 < fresh_rowid seq ids"
  by (simp add: fresh_rowid_def)

lemma next_fault_tables: "next_fault c = (f, c1) \<Longrightarrow> tables c1 = tables c \<and> current_timestamp c1 = current_timestamp c"
  by (auto simp: next_fault_def split: list.splits)

lemma next_receipt_id_fresh: "Some (next_receipt_id db) \<notin> set (map id' (receipts db))"
  by (simp only: next_receipt_id_def fresh_rowid_fresh not_False_eq_True)

lemma sql_insert_receipt_cases:
  assumes "sql_insert_receipt c p = (Inr result, c')"
  shows "result = Some (stored_receipt c p)
       \<and> tables c' = (tables c)\<lparr>receipts := receipts (tables c) @ [stored_receipt c p],
              receipts_seq := next_receipt_id (tables c)\<rparr>
       \<and> current_timestamp c' = current_timestamp c
       \<and> faults c' = tl (faults c)
       \<and> Receipt.filename p \<notin> set (map Receipt.filename (receipts (tables c)))"
proof -
  obtain f c1 where nf: "next_fault c = (f, c1)" by (cases "next_fault c")
  from next_fault_tables [OF nf] have eq: "tables c1 = tables c" "current_timestamp c1 = current_timestamp c"
    by simp_all
  from nf have "faults c1 = tl (faults c)" by (auto simp: next_fault_def split: list.splits)
  with assms nf eq show ?thesis
    by (auto simp: sql_insert_receipt_def Let_def stored_receipt_def
        split: option.splits if_splits)
qed

lemma number_or_null_nonzero: "number_or_null x \<noteq> Some 0"
  by (simp add: number_or_null_def falsy_number_def split: option.splits)

lemma insertReceipt_row:
  assumes "insertReceipt c receipt = (Inr row, c')"
  shows "row = stored_receipt c
        \<lparr> id' = None,
          filename = Receipt.filename receipt,
          merchant_name = string_or_null (Receipt.merchant_name receipt),
          receipt_date = string_or_null (Receipt.receipt_date receipt),
          total_amount = number_or_null (Receipt.total_amount receipt),
          currency = Some (string_or (Receipt.currency receipt) ''USD''),
          raw_text = string_or_null (raw_text receipt),
          processed_at = None,
          processing_status = Some (string_or (processing_status receipt) ''pending'') \<rparr>"
    and "tables c' = (tables c)\<lparr>receipts := receipts (tables c) @ [row],
              receipts_seq := next_receipt_id (tables c)\<rparr>"
    and "Receipt.filename receipt \<notin> set (map Receipt.filename (receipts (tables c)))"
proof -
  let ?p = "\<lparr> id' = None,
          filename = Receipt.filename receipt,
          merchant_name = string_or_null (Receipt.merchant_name receipt),
          receipt_date = string_or_null (Receipt.receipt_date receipt),
          total_amount = number_or_null (Receipt.total_amount receipt),
          currency = Some (string_or (Receipt.currency receipt) ''USD''),
          raw_text = string_or_null (raw_text receipt),
          processed_at = None,
          processing_status = Some (string_or (processing_status receipt) ''pending'') \<rparr>"
  obtain res c1 where ins: "sql_insert_receipt c ?p = (res, c1)"
    by (cases "sql_insert_receipt c ?p")
  from assms ins obtain result where res: "res = Inr result"
    by (cases res) (simp_all add: insertReceipt_def)
  from sql_insert_receipt_cases [OF ins [unfolded res]]
  have r: "result = Some (stored_receipt c ?p)"
    and t: "tables c1 = (tables c)\<lparr>receipts := receipts (tables c) @ [stored_receipt c ?p],
              receipts_seq := next_receipt_id (tables c)\<rparr>"
    and u: "Receipt.filename ?p \<notin> set (map Receipt.filename (receipts (tables c)))"
    by blast+
  from assms ins res r have "row = stored_receipt c ?p" "c' = c1"
    by (simp_all add: insertReceipt_def)
  with t u show "row = stored_receipt c ?p"
    and "tables c' = (tables c)\<lparr>receipts := receipts (tables c) @ [row],
              receipts_seq := next_receipt_id (tables c)\<rparr>"
    and "Receipt.filename receipt \<notin> set (map Receipt.filename (receipts (tables c)))"
    by simp_all
qed

lemma string_or_cases:
  "string_or x d = (if x = None \<or> x = Some [] then d else the x)"
  by (simp add: string_or_def falsy_string_def split: option.splits)

lemma number_or_null_cases:
  "number_or_null x = (if x = Some 0 then None else x)"
  by (simp add: number_or_null_def falsy_number_def split: option.splits)

text \<open>
  Claim C9. \<open>insertReceipt\<close> coerces falsy values before binding: the stored
  \<open>total_amount\<close> is \<open>NULL\<close> when the receipt's is \<open>0\<close> (or absent) and is never the
  number \<open>0\<close>; an absent or empty \<open>currency\<close> is stored as \<open>USD\<close>; an absent (or
  empty) \<open>processing_status\<close> is stored as \<open>pending\<close>. The row returned is the row
  appended to the table.
\<close>

theorem insertReceipt_coerces:
  assumes "insertReceipt c receipt = (Inr row, c')"
  shows "receipts (tables c') = receipts (tables c) @ [row]
    \<and> Receipt.total_amount row \<noteq> Some 0
    \<and> Receipt.total_amount row = (if Receipt.total_amount receipt = Some 0 then None else Receipt.total_amount receipt)
    \<and> Receipt.currency row = (if Receipt.currency receipt = None \<or> Receipt.currency receipt = Some [] then Some ''USD'' else Receipt.currency receipt)
    \<and> processing_status row = (if processing_status receipt = None \<or> processing_status receipt = Some [] then Some ''pending'' else processing_status receipt)"
proof -
  note r = insertReceipt_row [OF assms]
  have "Receipt.total_amount row = number_or_null (Receipt.total_amount receipt)"
    "Receipt.currency row = Some (string_or (Receipt.currency receipt) ''USD'')"
    "processing_status row = Some (string_or (processing_status receipt) ''pending'')"
    by (simp_all add: r(1) stored_receipt_def)
  moreover have "receipts (tables c') = receipts (tables c) @ [row]"
    by (simp add: r(2))
  ultimately show ?thesis
    by (auto simp: string_or_cases number_or_null_cases)
qed

lemma insertReceipt_free_receipt:
  "insertReceipt empty_connection free_receipt =
     (Inr free_receipt_row,
      empty_connection\<lparr>tables := \<lparr> receipts = [free_receipt_row], receipt_items = [],
        receipts_seq = 1, receipt_items_seq = 0 \<rparr>\<rparr>)"
  by (simp add: insertReceipt_def sql_insert_receipt_def next_fault_def empty_connection_def
      free_receipt_def free_receipt_row_def stored_receipt_def next_receipt_id_def fresh_rowid_def
      string_or_null_def string_or_def number_or_null_def falsy_string_def falsy_number_def
      Let_def)

theorem insertReceipt_coerces_witness:
  "insertReceipt empty_connection free_receipt =
     (Inr free_receipt_row,
      empty_connection\<lparr>tables := \<lparr> receipts = [free_receipt_row], receipt_items = [],
        receipts_seq = 1, receipt_items_seq = 0 \<rparr>\<rparr>)
   \<and> Receipt.total_amount free_receipt = Some 0
   \<and> Receipt.total_amount free_receipt_row = None
   \<and> Receipt.currency free_receipt_row = Some ''USD''
   \<and> processing_status free_receipt_row = Some ''pending''"
  using insertReceipt_coerces [OF insertReceipt_free_receipt] insertReceipt_free_receipt
  by (simp add: free_receipt_def)

lemma next_fault_faults: "next_fault c = (f, c1) \<Longrightarrow> faults c1 = tl (faults c)"
  by (auto simp: next_fault_def split: list.splits)

lemma sql_insert_receipt_item_Inr:
  assumes "sql_insert_receipt_item c p = (Inr result, c')"
  shows "result = Some (stored_item c p)"
    and "tables c' = (tables c)\<lparr>receipt_items := receipt_items (tables c) @ [stored_item c p],
              receipt_items_seq := next_item_id (tables c)\<rparr>"
    and "receipt_id p \<in> set (map id' (receipts (tables c)))"
proof -
  obtain f c1 where nf: "next_fault c = (f, c1)" by (cases "next_fault c")
  from next_fault_tables [OF nf] have eq: "tables c1 = tables c" by simp
  from assms nf eq show "result = Some (stored_item c p)"
    and "tables c' = (tables c)\<lparr>receipt_items := receipt_items (tables c) @ [stored_item c p],
              receipt_items_seq := next_item_id (tables c)\<rparr>"
    and "receipt_id p \<in> set (map id' (receipts (tables c)))"
    by (auto simp: sql_insert_receipt_item_def Let_def stored_item_def
        split: option.splits if_splits)
qed

lemma sql_insert_receipt_item_Inl:
  assumes "sql_insert_receipt_item c p = (Inl e, c')"
  shows "tables c' = tables c"
proof -
  obtain f c1 where nf: "next_fault c = (f, c1)" by (cases "next_fault c")
  from next_fault_tables [OF nf] have eq: "tables c1 = tables c" by simp
  from assms nf eq show ?thesis
    by (auto simp: sql_insert_receipt_item_def Let_def split: option.splits if_splits)
qed

lemma stored_item_params:
  "(stored_item c (item_params rid item))\<lparr>item_id := None\<rparr> = item_params rid item"
  by (simp add: stored_item_def item_params_def)

lemma insert_items_loop_Inr:
  "insert_items_loop c rid its acc = (Inr rows, c') \<Longrightarrow>
     \<exists>new. rows = acc @ new
       \<and> receipt_items (tables c') = receipt_items (tables c) @ new
       \<and> receipts (tables c') = receipts (tables c)
       \<and> receipts_seq (tables c') = receipts_seq (tables c)
       \<and> map (\<lambda>r. r\<lparr>item_id := None\<rparr>) new = map (item_params rid) its"
proof (induction its arbitrary: c acc)
  case Nil
  then show ?case by simp
next
  case (Cons item rest)
  obtain res c1 where ins: "sql_insert_receipt_item c (item_params rid item) = (res, c1)"
    by (cases "sql_insert_receipt_item c (item_params rid item)")
  from Cons.prems ins obtain result where res: "res = Inr result"
    by (cases res) simp_all
  note step = sql_insert_receipt_item_Inr [OF ins [unfolded res]]
  let ?row = "stored_item c (item_params rid item)"
  from Cons.prems ins res step(1)
  have "insert_items_loop c1 rid rest (acc @ [?row]) = (Inr rows, c')"
    by simp
  from Cons.IH [OF this] obtain new where new: "rows = (acc @ [?row]) @ new"
    "receipt_items (tables c') = receipt_items (tables c1) @ new"
    "receipts (tables c') = receipts (tables c1)"
    "receipts_seq (tables c') = receipts_seq (tables c1)"
    "map (\<lambda>r. r\<lparr>item_id := None\<rparr>) new = map (item_params rid) rest"
    by blast
  have "rows = acc @ (?row # new)" using new(1) by simp
  moreover have "receipt_items (tables c') = receipt_items (tables c) @ (?row # new)"
    using new(2) step(2) by simp
  moreover have "receipts (tables c') = receipts (tables c)"
    "receipts_seq (tables c') = receipts_seq (tables c)"
    using new(3,4) step(2) by simp_all
  moreover have "map (\<lambda>r. r\<lparr>item_id := None\<rparr>) (?row # new) = map (item_params rid) (item # rest)"
    using new(5) stored_item_params by simp
  ultimately show ?case by blast
qed

lemma insertReceiptItems_Inl:
  "insertReceiptItems c rid its = (Inl e, c') \<Longrightarrow> tables c' = tables c"
  by (auto simp: insertReceiptItems_def transaction_def split: prod.splits sum.splits)

lemma insertReceiptItems_Inr:
  assumes "insertReceiptItems c rid its = (Inr rows, c')"
  shows "receipt_items (tables c') = receipt_items (tables c) @ rows"
    and "receipts (tables c') = receipts (tables c)"
    and "receipts_seq (tables c') = receipts_seq (tables c)"
    and "map (\<lambda>r. r\<lparr>item_id := None\<rparr>) rows = map (item_params rid) its"
proof -
  from assms have "insert_items_loop c rid its [] = (Inr rows, c')"
    by (auto simp: insertReceiptItems_def transaction_def split: prod.splits sum.splits)
  from insert_items_loop_Inr [OF this]
  show "receipt_items (tables c') = receipt_items (tables c) @ rows"
    and "receipts (tables c') = receipts (tables c)"
    and "receipts_seq (tables c') = receipts_seq (tables c)"
    and "map (\<lambda>r. r\<lparr>item_id := None\<rparr>) rows = map (item_params rid) its"
    by auto
qed

lemma number_or_cases:
  "number_or x d = (if x = None \<or> x = Some 0 then d else the x)"
  by (simp add: number_or_def falsy_number_def split: option.splits)

lemma item_params_quantity:
  "quantity (item_params rid item) =
     (if quantity item = None \<or> quantity item = Some 0 then Some 1 else quantity item)"
  by (auto simp: item_params_def number_or_cases)

lemma item_params_unit_price:
  "unit_price (item_params rid item) = (if unit_price item = Some 0 then None else unit_price item)"
  by (simp add: item_params_def number_or_null_cases)

lemma item_params_receipt_id: "receipt_id (item_params rid item) = Some rid"
  by (simp add: item_params_def)

lemma quantity_drop_id: "quantity (r\<lparr>item_id := None\<rparr>) = quantity r"
  "unit_price (r\<lparr>item_id := None\<rparr>) = unit_price r"
  "receipt_id (r\<lparr>item_id := None\<rparr>) = receipt_id r"
  by simp_all

text \<open>
  Claim C10. \<open>insertReceiptItems\<close> coerces falsy numbers before binding: for every
  input item, a \<open>quantity\<close> of \<open>0\<close> (or a missing one) is stored as \<open>1\<close> and a
  \<open>unit_price\<close> of \<open>0\<close> (or a missing one) as \<open>NULL\<close>; the call stores one row for
  each item, bound to the receipt id, and no row it stores has quantity \<open>0\<close>. When
  the call throws, the tables are as they were.
\<close>

theorem insertReceiptItems_coerces:
  "case insertReceiptItems c rid its of
     (Inl e, c') \<Rightarrow> tables c' = tables c
   | (Inr rows, c') \<Rightarrow>
       receipt_items (tables c') = receipt_items (tables c) @ rows
       \<and> length rows = length its
       \<and> (\<forall>i < length its.
             receipt_id (rows ! i) = Some rid
           \<and> quantity (rows ! i) =
               (if quantity (its ! i) = None \<or> quantity (its ! i) = Some 0 then Some 1
                else quantity (its ! i))
           \<and> unit_price (rows ! i) =
               (if unit_price (its ! i) = Some 0 then None else unit_price (its ! i))
           \<and> quantity (rows ! i) \<noteq> Some 0)"
proof (cases "insertReceiptItems c rid its")
  case (Pair res c')
  show ?thesis
  proof (cases res)
    case (Inl e)
    with Pair insertReceiptItems_Inl show ?thesis by simp
  next
    case (Inr rows)
    note r = insertReceiptItems_Inr [OF Pair [unfolded Inr]]
    from r(4) have len: "length rows = length its"
      by (metis length_map)
    have "\<forall>i < length its.
             receipt_id (rows ! i) = Some rid
           \<and> quantity (rows ! i) =
               (if quantity (its ! i) = None \<or> quantity (its ! i) = Some 0 then Some 1
                else quantity (its ! i))
           \<and> unit_price (rows ! i) =
               (if unit_price (its ! i) = Some 0 then None else unit_price (its ! i))
           \<and> quantity (rows ! i) \<noteq> Some 0"
    proof (intro allI impI)
      fix i assume i: "i < length its"
      from r(4) i len have "(rows ! i)\<lparr>item_id := None\<rparr> = item_params rid (its ! i)"
        by (metis nth_map)
      then have "quantity (rows ! i) = quantity (item_params rid (its ! i))"
        "unit_price (rows ! i) = unit_price (item_params rid (its ! i))"
        "receipt_id (rows ! i) = receipt_id (item_params rid (its ! i))"
        by (metis quantity_drop_id)+
      then show "receipt_id (rows ! i) = Some rid
           \<and> quantity (rows ! i) =
               (if quantity (its ! i) = None \<or> quantity (its ! i) = Some 0 then Some 1
                else quantity (its ! i))
           \<and> unit_price (rows ! i) =
               (if unit_price (its ! i) = Some 0 then None else unit_price (its ! i))
           \<and> quantity (rows ! i) \<noteq> Some 0"
        by (simp add: item_params_quantity item_params_unit_price item_params_receipt_id)
    qed
    with Pair Inr r(1) len show ?thesis by simp
  qed
qed

lemma insertReceiptItems_coffee_bagel:
  "insertReceiptItems one_receipt_connection 1 [coffee, bagel] =
     (Inr [coffee_row, bagel_row],
      empty_connection\<lparr>tables := \<lparr> receipts = [free_receipt_row],
        receipt_items = [coffee_row, bagel_row], receipts_seq = 1, receipt_items_seq = 2 \<rparr>\<rparr>)"
  by (simp add: insertReceiptItems_def transaction_def sql_insert_receipt_item_def next_fault_def
      one_receipt_connection_def empty_connection_def free_receipt_row_def coffee_def bagel_def
      coffee_row_def bagel_row_def item_params_def stored_item_def next_item_id_def
      fresh_rowid_def string_or_null_def number_or_def number_or_null_def falsy_string_def
      falsy_number_def Let_def)

theorem insertReceiptItems_coerces_witness:
  "insertReceiptItems one_receipt_connection 1 [coffee, bagel] =
     (Inr [coffee_row, bagel_row],
      empty_connection\<lparr>tables := \<lparr> receipts = [free_receipt_row],
        receipt_items = [coffee_row, bagel_row], receipts_seq = 1, receipt_items_seq = 2 \<rparr>\<rparr>)
   \<and> quantity coffee = Some 0 \<and> quantity coffee_row = Some 1
   \<and> unit_price coffee = Some 0 \<and> unit_price coffee_row = None
   \<and> quantity bagel = None \<and> quantity bagel_row = Some 1"
  using insertReceiptItems_coerces
      [where c = one_receipt_connection and rid = 1 and its = "[coffee, bagel]"]
    insertReceiptItems_coffee_bagel
  by (simp add: coffee_def bagel_def coffee_row_def bagel_row_def)

section \<open>Properties of the orchestrator\<close>

lemma getReceiptByFilename_Some:
  "getReceiptByFilename c name = Some existing \<Longrightarrow>
     existing \<in> set (receipts (tables c)) \<and> Receipt.filename existing = name"
  by (auto simp: getReceiptByFilename_def find_Some_iff)

lemma getReceiptByFilename_None:
  "getReceiptByFilename c name = None \<longleftrightarrow> name \<notin> set (map Receipt.filename (receipts (tables c)))"
  by (auto simp: getReceiptByFilename_def find_None_iff)

lemma processReceipt_existing:
  assumes "getReceiptByFilename (conn w) name = Some existing"
  shows "processReceipt rt w name =
     (\<lparr> success = False, filename = name, receiptId = id' existing,
        message = ''Receipt already processed'', usedVision = False,
        textQuality = None, extractedData = None, validationIssues = None \<rparr>, w)"
  using assms by (simp add: processReceipt_def processReceipt_try_def Let_def)

lemma distinct_filename_unique:
  "distinct (map Receipt.filename rows) \<Longrightarrow> r \<in> set rows \<Longrightarrow> r' \<in> set rows \<Longrightarrow>
     Receipt.filename r = Receipt.filename r' \<Longrightarrow> r = r'"
  by (meson distinct_map inj_onD)

text \<open>
  Claim C2. For every filename for which the table holds a receipt, \<open>processReceipt\<close>
  returns \<open>success = false\<close>, the id of a stored receipt of that filename (of the
  receipt itself, the filenames being unique) and the message of prior processing,
  and it leaves the world as it was: no request is sent and nothing is written.
\<close>

theorem processReceipt_idempotent:
  assumes "r \<in> set (receipts (tables (conn w)))" and "Receipt.filename r = name"
  shows "\<exists>existing. existing \<in> set (receipts (tables (conn w)))
      \<and> Receipt.filename existing = name
      \<and> (distinct (map Receipt.filename (receipts (tables (conn w)))) \<longrightarrow> existing = r)
      \<and> processReceipt rt w name =
          (\<lparr> success = False, filename = name, receiptId = id' existing,
             message = ''Receipt already processed'', usedVision = False,
             textQuality = None, extractedData = None, validationIssues = None \<rparr>, w)"
proof -
  from assms have "name \<in> set (map Receipt.filename (receipts (tables (conn w))))"
    by force
  then obtain existing where ex: "getReceiptByFilename (conn w) name = Some existing"
    using getReceiptByFilename_None [of "conn w" name] by (cases "getReceiptByFilename (conn w) name") auto
  note mem = getReceiptByFilename_Some [OF ex]
  have "distinct (map Receipt.filename (receipts (tables (conn w)))) \<longrightarrow> existing = r"
    using mem assms distinct_filename_unique by blast
  with mem processReceipt_existing [OF ex] show ?thesis by blast
qed

lemma next_fault_Nil: "faults c = [] \<Longrightarrow> next_fault c = (None, c)"
  by (simp add: next_fault_def)

lemma sql_insert_receipt_ok:
  assumes "faults c = []" and "Receipt.filename p \<notin> set (map Receipt.filename (receipts (tables c)))"
  shows "sql_insert_receipt c p =
     (Inr (Some (stored_receipt c p)),
      c\<lparr>tables := (tables c)\<lparr>receipts := receipts (tables c) @ [stored_receipt c p],
              receipts_seq := next_receipt_id (tables c)\<rparr>\<rparr>)"
  using assms by (simp add: sql_insert_receipt_def next_fault_Nil Let_def)

lemma sql_insert_receipt_item_ok:
  assumes "faults c = []" and "receipt_id p \<in> set (map id' (receipts (tables c)))"
  shows "sql_insert_receipt_item c p =
     (Inr (Some (stored_item c p)),
      c\<lparr>tables := (tables c)\<lparr>receipt_items := receipt_items (tables c) @ [stored_item c p],
              receipt_items_seq := next_item_id (tables c)\<rparr>\<rparr>)"
  using assms by (simp add: sql_insert_receipt_item_def next_fault_Nil Let_def)

lemma insert_items_loop_ok:
  "faults c = [] \<Longrightarrow> Some rid \<in> set (map id' (receipts (tables c))) \<Longrightarrow>
     \<exists>rows c'. insert_items_loop c rid its acc = (Inr rows, c') \<and> faults c' = []"
proof (induction its arbitrary: c acc)
  case Nil
  then show ?case by simp
next
  case (Cons item rest)
  let ?c1 = "c\<lparr>tables := (tables c)\<lparr>receipt_items := receipt_items (tables c) @ [stored_item c (item_params rid item)],
              receipt_items_seq := next_item_id (tables c)\<rparr>\<rparr>"
  have step: "sql_insert_receipt_item c (item_params rid item) = (Inr (Some (stored_item c (item_params rid item))), ?c1)"
    using Cons.prems by (intro sql_insert_receipt_item_ok) (simp_all add: item_params_receipt_id)
  have "faults ?c1 = []" "Some rid \<in> set (map id' (receipts (tables ?c1)))"
    using Cons.prems by simp_all
  from Cons.IH [OF this] step show ?case by simp
qed

lemma insertReceiptItems_ok:
  assumes "faults c = []" and "Some rid \<in> set (map id' (receipts (tables c)))"
  shows "\<exists>rows c'. insertReceiptItems c rid its = (Inr rows, c') \<and> faults c' = []"
proof -
  from insert_items_loop_ok [OF assms, of its "[]"]
  obtain rows c' where "insert_items_loop c rid its [] = (Inr rows, c')" "faults c' = []"
    by blast
  then show ?thesis by (simp add: insertReceiptItems_def transaction_def)
qed

lemma insertTransaction_Inl:
  "insertTransaction name extracted validated c = (Inl e, c') \<Longrightarrow> tables c' = tables c"
  by (auto simp: insertTransaction_def transaction_def split: prod.splits sum.splits)

lemma insertReceipt_receipt_of:
  assumes "insertReceipt c (receipt_of name extracted validated) = (Inr row, c1)"
  shows "row = header_row c name extracted validated"
  using insertReceipt_row(1) [OF assms]
  by (simp add: header_row_def receipt_of_def stored_receipt_def string_or_null_def string_or_def
      number_or_null_def falsy_string_def falsy_number_def)

lemma insertTransaction_body_Inr:
  assumes "insertTransaction_body name extracted validated c = (Inr rid, c')"
  shows "rid = next_receipt_id (tables c)"
    and "receipts (tables c') = receipts (tables c) @ [header_row c name extracted validated]"
    and "\<exists>rows. receipt_items (tables c') = receipt_items (tables c) @ rows
           \<and> map (\<lambda>r. r\<lparr>item_id := None\<rparr>) rows = map (item_params rid) (items extracted)"
proof -
  obtain res c1 where ins: "insertReceipt c (receipt_of name extracted validated) = (res, c1)"
    by (cases "insertReceipt c (receipt_of name extracted validated)")
  from assms ins obtain row where res: "res = Inr row"
    by (cases res) (simp_all add: insertTransaction_body_def)
  note ins' = ins [unfolded res]
  have row: "row = header_row c name extracted validated"
    by (rule insertReceipt_receipt_of [OF ins'])
  have t1: "tables c1 = (tables c)\<lparr>receipts := receipts (tables c) @ [row],
              receipts_seq := next_receipt_id (tables c)\<rparr>"
    by (rule insertReceipt_row(2) [OF ins'])
  have idr: "id' row = Some (next_receipt_id (tables c))"
    by (simp add: row header_row_def)
  have pos: "next_receipt_id (tables c) \<noteq> 0"
    using fresh_rowid_pos by (simp add: next_receipt_id_def)
  show rid: "rid = next_receipt_id (tables c)"
    using assms ins' idr pos
    by (auto simp: insertTransaction_body_def split: if_splits prod.splits sum.splits)
  show "receipts (tables c') = receipts (tables c) @ [header_row c name extracted validated]"
    and "\<exists>rows. receipt_items (tables c') = receipt_items (tables c) @ rows
           \<and> map (\<lambda>r. r\<lparr>item_id := None\<rparr>) rows = map (item_params rid) (items extracted)"
  proof (atomize (full), cases "items extracted = []")
    case True
    with assms ins' idr pos have "c' = c1"
      by (simp add: insertTransaction_body_def)
    with t1 row True show "receipts (tables c') = receipts (tables c) @ [header_row c name extracted validated]
      \<and> (\<exists>rows. receipt_items (tables c') = receipt_items (tables c) @ rows
           \<and> map (\<lambda>r. r\<lparr>item_id := None\<rparr>) rows = map (item_params rid) (items extracted))"
      by simp
  next
    case False
    obtain res2 c2 where it: "insertReceiptItems c1 (next_receipt_id (tables c)) (items extracted) = (res2, c2)"
      by (cases "insertReceiptItems c1 (next_receipt_id (tables c)) (items extracted)")
    from assms ins' idr pos False it obtain rows where res2: "res2 = Inr rows" and c': "c' = c2"
      by (cases res2) (simp_all add: insertTransaction_body_def)
    note r = insertReceiptItems_Inr [OF it [unfolded res2]]
    from r(1,2,4) t1 row c' rid
    show "receipts (tables c') = receipts (tables c) @ [header_row c name extracted validated]
      \<and> (\<exists>rows. receipt_items (tables c') = receipt_items (tables c) @ rows
           \<and> map (\<lambda>r. r\<lparr>item_id := None\<rparr>) rows = map (item_params rid) (items extracted))"
      by auto
  qed
qed

lemma insertTransaction_Inr:
  assumes "insertTransaction name extracted validated c = (Inr rid, c')"
  shows "rid = next_receipt_id (tables c)"
    and "receipts (tables c') = receipts (tables c) @ [header_row c name extracted validated]"
    and "\<exists>rows. receipt_items (tables c') = receipt_items (tables c) @ rows
           \<and> map (\<lambda>r. r\<lparr>item_id := None\<rparr>) rows = map (item_params rid) (items extracted)"
proof -
  from assms have "insertTransaction_body name extracted validated c = (Inr rid, c')"
    by (auto simp: insertTransaction_def transaction_def split: prod.splits sum.splits)
  from insertTransaction_body_Inr [OF this]
  show "rid = next_receipt_id (tables c)"
    and "receipts (tables c') = receipts (tables c) @ [header_row c name extracted validated]"
    and "\<exists>rows. receipt_items (tables c') = receipt_items (tables c) @ rows
           \<and> map (\<lambda>r. r\<lparr>item_id := None\<rparr>) rows = map (item_params rid) (items extracted)"
    by blast+
qed

lemma insertReceipt_ok:
  assumes "faults c = []" and "Receipt.filename p \<notin> set (map Receipt.filename (receipts (tables c)))"
  shows "\<exists>row c1. insertReceipt c p = (Inr row, c1) \<and> faults c1 = []
           \<and> id' row = Some (next_receipt_id (tables c))
           \<and> row \<in> set (receipts (tables c1))"
proof -
  let ?p = "\<lparr> id' = None,
          filename = Receipt.filename p,
          merchant_name = string_or_null (Receipt.merchant_name p),
          receipt_date = string_or_null (Receipt.receipt_date p),
          total_amount = number_or_null (Receipt.total_amount p),
          currency = Some (string_or (Receipt.currency p) ''USD''),
          raw_text = string_or_null (raw_text p),
          processed_at = None,
          processing_status = Some (string_or (processing_status p) ''pending'') \<rparr>"
  have "Receipt.filename ?p \<notin> set (map Receipt.filename (receipts (tables c)))"
    using assms(2) by simp
  from sql_insert_receipt_ok [OF assms(1) this] assms(1)
  show ?thesis
    by (simp add: insertReceipt_def stored_receipt_def)
qed

lemma insertTransaction_ok:
  assumes "faults c = []" and "getReceiptByFilename c name = None"
  shows "\<exists>rid c'. insertTransaction name extracted validated c = (Inr rid, c')"
proof -
  have "Receipt.filename (receipt_of name extracted validated)
      \<notin> set (map Receipt.filename (receipts (tables c)))"
    using assms(2) by (simp add: getReceiptByFilename_None receipt_of_def)
  from insertReceipt_ok [OF assms(1) this]
  obtain row c1 where ins: "insertReceipt c (receipt_of name extracted validated) = (Inr row, c1)"
    and f1: "faults c1 = []" and idr: "id' row = Some (next_receipt_id (tables c))"
    and mem: "row \<in> set (receipts (tables c1))"
    by blast
  have pos: "next_receipt_id (tables c) \<noteq> 0"
    using fresh_rowid_pos by (simp add: next_receipt_id_def)
  from mem idr have "Some (next_receipt_id (tables c)) \<in> set (map id' (receipts (tables c1)))"
    by force
  from insertReceiptItems_ok [OF f1 this, of "items extracted"]
  obtain rows c2 where "insertReceiptItems c1 (next_receipt_id (tables c)) (items extracted) = (Inr rows, c2)"
    by blast
  with ins idr pos have "\<exists>rid c'. insertTransaction_body name extracted validated c = (Inr rid, c')"
    by (simp add: insertTransaction_body_def)
  then show ?thesis
    by (auto simp: insertTransaction_def transaction_def)
qed

lemma extractReceiptDataWithVision_sent:
  "snd (extractReceiptDataWithVision ep s b64 fb) = s @ [vision_request b64 fb]"
  by (simp add: extractReceiptDataWithVision_def Let_def)

lemma bun_exists_iff: "bun_exists fs p \<longleftrightarrow> (\<exists>bytes. node_at fs p = Some (File bytes))"
  by (auto simp: bun_exists_def split: option.splits node.splits)

lemma node_at_Some: "node_at fs p = Some n \<Longrightarrow> \<not> has_nul p \<and> fs p = Some n"
  by (simp add: node_at_def split: if_splits)

lemma processReceipt_try_fresh:
  assumes "getReceiptByFilename (conn w) name = None"
    and "node_at (files w) (path_join rt (RECEIPTS_DIR rt) name) = Some (File bytes)"
  shows "processReceipt_try rt w name =
     (case extractReceiptDataWithVision (openai rt) (sent w) (base64 rt bytes) (Some []) of
        (Inl e, sent1) \<Rightarrow> (Inl e, w\<lparr>sent := sent1\<rparr>)
      | (Inr parsed, sent1) \<Rightarrow>
          (case json_items parsed of
             None \<Rightarrow> (Inl (items_type_error rt), w\<lparr>sent := sent1\<rparr>)
           | Some its \<Rightarrow>
               (case insertTransaction name (declared_data parsed its)
                       (validateReceiptData (arith rt) (declared_data parsed its)) (conn w) of
                  (Inl e, c1) \<Rightarrow> (Inl e, w\<lparr>conn := c1, sent := sent1\<rparr>)
                | (Inr rid, c1) \<Rightarrow>
                    (Inr \<lparr> success = True, filename = name, receiptId = Some rid,
                           message =
                             (if valid (validateReceiptData (arith rt) (declared_data parsed its))
                              then ''Receipt processed successfully''
                              else ''Receipt processed with validation issues''),
                           usedVision = True, textQuality = None,
                           extractedData = Some (declared_data parsed its),
                           validationIssues =
                             Some (issues (validateReceiptData (arith rt) (declared_data parsed its))) \<rparr>,
                     w\<lparr>conn := c1, sent := sent1\<rparr>))))"
proof -
  from node_at_Some [OF assms(2)]
  have n: "\<not> has_nul (path_join rt (RECEIPTS_DIR rt) name)" by simp
  from assms(2) have e: "bun_exists (files w) (path_join rt (RECEIPTS_DIR rt) name)"
    by (auto simp: bun_exists_iff)
  from assms n e show ?thesis
    by (simp add: processReceipt_try_def Let_def getReceiptsDir_def loadPDFDocuments_def
        convertPDFToBase64_def split: prod.splits sum.splits option.splits)
qed


lemma stored_rows_fields:
  assumes "map (\<lambda>r. r\<lparr>item_id := None\<rparr>) rows = map (item_params rid) its"
    and "i < length its"
  shows "receipt_id (rows ! i) = Some rid"
    and "item_name (rows ! i) = item_name (its ! i)"
    and "total_price (rows ! i) = total_price (its ! i)"
    and "quantity (rows ! i) =
           (if quantity (its ! i) = None \<or> quantity (its ! i) = Some 0 then Some 1
            else quantity (its ! i))"
    and "unit_price (rows ! i) =
           (if unit_price (its ! i) = Some 0 then None else unit_price (its ! i))"
proof -
  from assms(1) have len: "length rows = length its"
    by (metis length_map)
  from assms len have eq: "(rows ! i)\<lparr>item_id := None\<rparr> = item_params rid (its ! i)"
    by (metis nth_map)
  have f: "receipt_id ((rows ! i)\<lparr>item_id := None\<rparr>) = receipt_id (rows ! i)"
    "item_name ((rows ! i)\<lparr>item_id := None\<rparr>) = item_name (rows ! i)"
    "total_price ((rows ! i)\<lparr>item_id := None\<rparr>) = total_price (rows ! i)"
    "quantity ((rows ! i)\<lparr>item_id := None\<rparr>) = quantity (rows ! i)"
    "unit_price ((rows ! i)\<lparr>item_id := None\<rparr>) = unit_price (rows ! i)"
    by simp_all
  show "receipt_id (rows ! i) = Some rid"
    using f(1) unfolding eq by (simp add: item_params_receipt_id)
  show "item_name (rows ! i) = item_name (its ! i)"
    using f(2) unfolding eq by (simp add: item_params_def)
  show "total_price (rows ! i) = total_price (its ! i)"
    using f(3) unfolding eq by (simp add: item_params_def)
  show "quantity (rows ! i) =
           (if quantity (its ! i) = None \<or> quantity (its ! i) = Some 0 then Some 1
            else quantity (its ! i))"
    using f(4) unfolding eq by (simp add: item_params_quantity)
  show "unit_price (rows ! i) =
           (if unit_price (its ! i) = Some 0 then None else unit_price (its ! i))"
    using f(5) unfolding eq by (simp add: item_params_unit_price)
qed

text \<open>
  The persistence step, for a document that is not yet processed, is in the store
  and whose extracted value has its three checked fields and an array of items:
  \<open>processReceipt\<close> either succeeds, and then the tables are the old ones with the
  header row added, whose status is \<open>complete\<close> if the validator reported valid and
  \<open>needs_review\<close> otherwise, and with one row for each extracted item, bound to the
  new receipt id and carrying the item's name and prices; or it fails, and then the
  tables are as they were. The validator's verdict does not decide between the two:
  when the engine refuses no statement, the call succeeds.
\<close>

lemma processReceipt_persists:
  assumes "getReceiptByFilename (conn w) name = None"
    and "node_at (files w) (path_join rt (RECEIPTS_DIR rt) name) = Some (File bytes)"
    and "extractReceiptDataWithVision (openai rt) (sent w) (base64 rt bytes) (Some [])
           = (Inr parsed, sent1)"
    and "json_items parsed = Some its"
  shows "case processReceipt rt w name of
     (result, w1) \<Rightarrow>
       (let extracted = declared_data parsed its;
            validated = validateReceiptData (arith rt) extracted;
            rid = next_receipt_id (tables (conn w));
            header = header_row (conn w) name extracted validated
        in id' header = Some rid
         \<and> Receipt.filename header = name
         \<and> processing_status header = Some (if valid validated then ''complete'' else ''needs_review'')
         \<and> (if success result
            then receiptId result = Some rid
              \<and> validationIssues result = Some (issues validated)
              \<and> receipts (tables (conn w1)) = receipts (tables (conn w)) @ [header]
              \<and> (\<exists>rows. receipt_items (tables (conn w1)) = receipt_items (tables (conn w)) @ rows
                    \<and> length rows = length its
                    \<and> (\<forall>i < length its.
                          receipt_id (rows ! i) = Some rid
                        \<and> item_name (rows ! i) = item_name (its ! i)
                        \<and> total_price (rows ! i) = total_price (its ! i)
                        \<and> quantity (rows ! i) =
                            (if quantity (its ! i) = None \<or> quantity (its ! i) = Some 0
                             then Some 1 else quantity (its ! i))
                        \<and> unit_price (rows ! i) =
                            (if unit_price (its ! i) = Some 0 then None
                             else unit_price (its ! i))))
            else tables (conn w1) = tables (conn w))
         \<and> (faults (conn w) = [] \<longrightarrow> success result))"
proof -
  let ?x = "declared_data parsed its"
  let ?v = "validateReceiptData (arith rt) ?x"
  let ?h = "header_row (conn w) name ?x ?v"
  have st: "processing_status ?h = Some (if valid ?v then ''complete'' else ''needs_review'')"
    "id' ?h = Some (next_receipt_id (tables (conn w)))" "Receipt.filename ?h = name"
    by (simp_all add: header_row_def)
  have its: "items ?x = its" by (simp add: declared_data_def)
  note step = processReceipt_try_fresh [OF assms(1,2), unfolded assms(3), simplified,
      unfolded assms(4), simplified]
  obtain res c1 where tr: "insertTransaction name ?x ?v (conn w) = (res, c1)"
    by (cases "insertTransaction name ?x ?v (conn w)")
  show ?thesis
  proof (cases res)
    case (Inl e)
    from insertTransaction_Inl [OF tr [unfolded Inl]] have unchanged: "tables c1 = tables (conn w)" .
    have nofault: "faults (conn w) \<noteq> []"
      using insertTransaction_ok [OF _ assms(1), of ?x ?v] tr Inl by auto
    from step tr Inl unchanged nofault st show ?thesis
      by (simp add: processReceipt_def Let_def)
  next
    case (Inr rid)
    note r = insertTransaction_Inr [OF tr [unfolded Inr]]
    from r(3) obtain rows where rows:
      "receipt_items (tables c1) = receipt_items (tables (conn w)) @ rows"
      "map (\<lambda>r. r\<lparr>item_id := None\<rparr>) rows = map (item_params rid) its"
      unfolding its by blast
    from rows(2) have len: "length rows = length its" by (metis length_map)
    have fields: "\<forall>i < length its.
          receipt_id (rows ! i) = Some rid
        \<and> item_name (rows ! i) = item_name (its ! i)
        \<and> total_price (rows ! i) = total_price (its ! i)
        \<and> quantity (rows ! i) =
            (if quantity (its ! i) = None \<or> quantity (its ! i) = Some 0
             then Some 1 else quantity (its ! i))
        \<and> unit_price (rows ! i) =
            (if unit_price (its ! i) = Some 0 then None else unit_price (its ! i))"
      using stored_rows_fields [OF rows(2)] by blast
    have ex: "\<exists>rows. receipt_items (tables c1) = receipt_items (tables (conn w)) @ rows
        \<and> length rows = length its
        \<and> (\<forall>i < length its.
              receipt_id (rows ! i) = Some rid
            \<and> item_name (rows ! i) = item_name (its ! i)
            \<and> total_price (rows ! i) = total_price (its ! i)
            \<and> quantity (rows ! i) =
                (if quantity (its ! i) = None \<or> quantity (its ! i) = Some 0
                 then Some 1 else quantity (its ! i))
            \<and> unit_price (rows ! i) =
                (if unit_price (its ! i) = Some 0 then None else unit_price (its ! i)))"
      using rows(1) len fields by blast
    from step tr Inr r(1,2) st ex show ?thesis
      by (simp add: processReceipt_def Let_def)
  qed
qed

lemma processReceipt_sent_fresh:
  assumes "getReceiptByFilename (conn w) name = None"
    and "node_at (files w) (path_join rt (RECEIPTS_DIR rt) name) = Some (File bytes)"
  shows "sent (snd (processReceipt rt w name)) = sent w @ [vision_request (base64 rt bytes) (Some [])]"
    and "success (fst (processReceipt rt w name)) \<longrightarrow> usedVision (fst (processReceipt rt w name))"
proof -
  obtain res s1 where ex: "extractReceiptDataWithVision (openai rt) (sent w) (base64 rt bytes) (Some []) = (res, s1)"
    by (cases "extractReceiptDataWithVision (openai rt) (sent w) (base64 rt bytes) (Some [])")
  have s1: "s1 = sent w @ [vision_request (base64 rt bytes) (Some [])]"
    using extractReceiptDataWithVision_sent [of "openai rt" "sent w" "base64 rt bytes" "Some []"] ex
    by simp
  note step = processReceipt_try_fresh [OF assms, unfolded ex]
  show "sent (snd (processReceipt rt w name)) = sent w @ [vision_request (base64 rt bytes) (Some [])]"
    using step s1 by (auto simp: processReceipt_def split: sum.splits prod.splits option.splits)
  show "success (fst (processReceipt rt w name)) \<longrightarrow> usedVision (fst (processReceipt rt w name))"
    using step by (auto simp: processReceipt_def split: sum.splits prod.splits option.splits)
qed

text \<open>
  Claim C1, as amended. The flag \<open>ENABLE_VISION_FALLBACK\<close> is enabled unless the
  environment variable of that name is the string \<open>false\<close>, and it does not govern
  the choice of the extraction path: for every document that is not yet processed
  and is in the store, \<open>processReceipt\<close> calls the client once, with the vision
  request on the encoded document, with the flag enabled and with the flag
  disabled, and a successful result reports \<open>usedVision\<close>.
\<close>

theorem processReceipt_always_vision:
  assumes "getReceiptByFilename (conn w) name = None"
    and "node_at (files w) (path_join rt (RECEIPTS_DIR rt) name) = Some (File bytes)"
  shows "ENABLE_VISION_FALLBACK rt = (env rt ''ENABLE_VISION_FALLBACK'' \<noteq> Some ''false'')
   \<and> (case processReceipt rt w name of
        (result, w1) \<Rightarrow>
          sent w1 = sent w @ [vision_request (base64 rt bytes) (Some [])]
          \<and> (success result \<longrightarrow> usedVision result))"
  using processReceipt_sent_fresh [OF assms]
  by (simp add: ENABLE_VISION_FALLBACK_def case_prod_beta)












lemma cafe_not_processed: "getReceiptByFilename (conn cafe_world) ''cafe.pdf'' = None"
  by (simp add: getReceiptByFilename_def cafe_world_def empty_connection_def)

lemma cafe_in_store:
  "node_at (files cafe_world) (path_join vision_off (RECEIPTS_DIR vision_off) ''cafe.pdf'')
     = Some (File ''%PDF'')"
  by (simp add: node_at_def has_nul_def cafe_world_def vision_off_def)

lemma cafe_extracted:
  "extractReceiptDataWithVision (openai vision_off) (sent cafe_world) (base64 vision_off ''%PDF'') (Some [])
     = (Inr cafe_json, [cafe_request])"
  by (simp add: extractReceiptDataWithVision_def vision_request_def checked_data_def
      falsy_string_def vision_off_def cafe_world_def cafe_json_def
      cafe_request_def Let_def)

lemma cafe_items: "json_items cafe_json = Some [cafe_item]"
  by (simp add: cafe_json_def)

lemma cafe_declared: "declared_data cafe_json [cafe_item] = cafe_data"
  by (simp add: declared_data_def cafe_json_def cafe_data_def)

lemma cafe_items_inserted:
  "insertReceiptItems
     (empty_connection\<lparr>tables := \<lparr> receipts = [cafe_row], receipt_items = [],
        receipts_seq = 1, receipt_items_seq = 0 \<rparr>\<rparr>) 1 [cafe_item]
   = (Inr [cafe_item_row], cafe_connection)"
  by (simp add: insertReceiptItems_def transaction_def sql_insert_receipt_item_def next_fault_def
      empty_connection_def cafe_row_def cafe_item_def cafe_item_row_def cafe_connection_def
      item_params_def stored_item_def next_item_id_def
      fresh_rowid_def string_or_null_def number_or_def number_or_null_def falsy_string_def
      falsy_number_def Let_def)

lemma cafe_header_inserted:
  "insertReceipt empty_connection (receipt_of ''cafe.pdf'' cafe_data cafe_validation)
   = (Inr cafe_row, empty_connection\<lparr>tables := \<lparr> receipts = [cafe_row], receipt_items = [],
        receipts_seq = 1, receipt_items_seq = 0 \<rparr>\<rparr>)"
  by (simp add: insertReceipt_def sql_insert_receipt_def next_fault_def empty_connection_def
      receipt_of_def cafe_data_def cafe_validation_def cafe_row_def stored_receipt_def
      next_receipt_id_def fresh_rowid_def
      string_or_null_def string_or_def number_or_null_def falsy_string_def falsy_number_def
      Let_def)

lemma cafe_transaction:
  "insertTransaction ''cafe.pdf'' cafe_data cafe_validation empty_connection = (Inr 1, cafe_connection)"
proof -
  have "id' cafe_row = Some 1" "items cafe_data = [cafe_item]"
    by (simp_all add: cafe_row_def cafe_data_def)
  then show ?thesis
    by (simp add: insertTransaction_def transaction_def insertTransaction_body_def
        cafe_header_inserted cafe_items_inserted del: One_nat_def)
qed

lemma cafe_processed:
  "processReceipt vision_off cafe_world ''cafe.pdf'' = (cafe_result, cafe_world_processed)"
proof -
  have c0: "conn cafe_world = empty_connection" by (simp add: cafe_world_def)
  have "processReceipt_try vision_off cafe_world ''cafe.pdf'' =
      (Inr cafe_result, cafe_world_processed)"
    apply (subst processReceipt_try_fresh [OF cafe_not_processed cafe_in_store])
    apply (simp only: cafe_extracted prod.case sum.case cafe_items option.case cafe_declared
        cafe_validated c0 cafe_transaction)
    apply (simp add: cafe_result_def cafe_world_processed_def cafe_validation_def)
    done
  then show ?thesis by (simp add: processReceipt_def)
qed

theorem vision_flag_counterexample:
  "\<not> ENABLE_VISION_FALLBACK vision_off
   \<and> usedVision (fst (processReceipt vision_off cafe_world ''cafe.pdf''))
   \<and> sent (snd (processReceipt vision_off cafe_world ''cafe.pdf'')) =
       [Vision_request ''Analyze this receipt image and extract all receipt data.''
          ''data:application/pdf;base64,JVBERg=='']"
proof -
  have "\<not> ENABLE_VISION_FALLBACK vision_off"
    by (simp add: ENABLE_VISION_FALLBACK_def vision_off_def)
  then show ?thesis
    by (simp add: cafe_processed cafe_result_def cafe_world_processed_def cafe_request_def)
qed

theorem processReceipt_always_vision_witness:
  "getReceiptByFilename (conn cafe_world) ''cafe.pdf'' = None
   \<and> node_at (files cafe_world) (path_join vision_off (RECEIPTS_DIR vision_off) ''cafe.pdf'')
       = Some (File ''%PDF'')
   \<and> \<not> ENABLE_VISION_FALLBACK vision_off
   \<and> ENABLE_VISION_FALLBACK (vision_off\<lparr>env := Map.empty\<rparr>)
   \<and> sent (snd (processReceipt vision_off cafe_world ''cafe.pdf'')) = sent cafe_world @ [cafe_request]
   \<and> success (fst (processReceipt vision_off cafe_world ''cafe.pdf''))
   \<and> usedVision (fst (processReceipt vision_off cafe_world ''cafe.pdf''))"
proof -
  have flags: "ENABLE_VISION_FALLBACK (vision_off\<lparr>env := Map.empty\<rparr>)"
    "\<not> ENABLE_VISION_FALLBACK vision_off"
    by (simp_all add: ENABLE_VISION_FALLBACK_def vision_off_def)
  have "sent cafe_world = []" by (simp add: cafe_world_def)
  with processReceipt_always_vision [OF cafe_not_processed cafe_in_store] flags
  show ?thesis
    by (simp add: cafe_processed cafe_not_processed cafe_in_store cafe_result_def
        cafe_world_processed_def)
qed

lemma cafe_row_stored: "cafe_row \<in> set (receipts (tables (conn cafe_world_processed)))"
  by (simp add: cafe_world_processed_def cafe_connection_def)

lemma cafe_row_filename: "Receipt.filename cafe_row = ''cafe.pdf''"
  by (simp add: cafe_row_def)

theorem processReceipt_idempotent_witness:
  "cafe_row \<in> set (receipts (tables (conn cafe_world_processed)))
   \<and> Receipt.filename cafe_row = ''cafe.pdf''
   \<and> processReceipt vision_off cafe_world_processed ''cafe.pdf'' =
        (\<lparr> success = False, filename = ''cafe.pdf'', receiptId = Some 1,
           message = ''Receipt already processed'', usedVision = False,
           textQuality = None, extractedData = None, validationIssues = None \<rparr>,
         cafe_world_processed)"
proof -
  have d: "distinct (map Receipt.filename (receipts (tables (conn cafe_world_processed))))"
    by (simp add: cafe_world_processed_def cafe_connection_def)
  from processReceipt_idempotent [OF cafe_row_stored cafe_row_filename, of vision_off] d
  have "processReceipt vision_off cafe_world_processed ''cafe.pdf'' =
        (\<lparr> success = False, filename = ''cafe.pdf'', receiptId = id' cafe_row,
           message = ''Receipt already processed'', usedVision = False,
           textQuality = None, extractedData = None, validationIssues = None \<rparr>,
         cafe_world_processed)"
    by auto
  with cafe_row_stored cafe_row_filename show ?thesis
    by (simp add: cafe_row_def)
qed

text \<open>
  Claim C3. A document whose extracted value has \<open>merchant_name\<close>, \<open>receipt_date\<close>
  and \<open>total_amount\<close> is extracted successfully: \<open>extractReceiptDataWithVision\<close>
  returns it. When the value has no \<open>items\<close>, \<open>processReceipt\<close> throws at the log
  line that reads \<open>extractedData.items.length\<close>, before the validator and the
  transaction: no header is inserted, and the result is \<open>success = false\<close> with the
  message of the \<open>TypeError\<close>. (For a value with an array of items the claim holds:
  lemma \<open>processReceipt_persists\<close>.)
\<close>

theorem processReceipt_absent_items:
  "extractReceiptDataWithVision (openai no_items_runtime) (sent cafe_world)
       (base64 no_items_runtime ''%PDF'') (Some [])
     = (Inr (cafe_json\<lparr>json_items := None\<rparr>), [cafe_request])
   \<and> processReceipt no_items_runtime cafe_world ''cafe.pdf''
     = (no_items_result, cafe_world\<lparr>sent := [cafe_request]\<rparr>)
   \<and> \<not> success no_items_result
   \<and> message no_items_result = ''undefined is not an object''
   \<and> tables (conn (snd (processReceipt no_items_runtime cafe_world ''cafe.pdf'')))
     = tables (conn cafe_world)
   \<and> receipts (tables (conn cafe_world)) = []"
proof -
  have store: "node_at (files cafe_world)
      (path_join no_items_runtime (RECEIPTS_DIR no_items_runtime) ''cafe.pdf'') = Some (File ''%PDF'')"
    by (simp add: node_at_def has_nul_def cafe_world_def no_items_runtime_def vision_off_def)
  have ex: "extractReceiptDataWithVision (openai no_items_runtime) (sent cafe_world)
       (base64 no_items_runtime ''%PDF'') (Some [])
     = (Inr (cafe_json\<lparr>json_items := None\<rparr>), [cafe_request])"
    by (simp add: extractReceiptDataWithVision_def vision_request_def checked_data_def
        falsy_string_def no_items_runtime_def vision_off_def cafe_world_def cafe_json_def
        cafe_request_def Let_def)
  have msg: "items_type_error no_items_runtime = ''undefined is not an object''"
    by (simp add: no_items_runtime_def vision_off_def)
  have "processReceipt_try no_items_runtime cafe_world ''cafe.pdf'' =
      (Inl ''undefined is not an object'', cafe_world\<lparr>sent := [cafe_request]\<rparr>)"
    apply (subst processReceipt_try_fresh [OF cafe_not_processed store])
    apply (simp only: ex prod.case sum.case)
    apply (simp add: msg)
    done
  then have "processReceipt no_items_runtime cafe_world ''cafe.pdf''
     = (no_items_result, cafe_world\<lparr>sent := [cafe_request]\<rparr>)"
    by (simp add: processReceipt_def no_items_result_def)
  with ex show ?thesis
    by (simp add: no_items_result_def cafe_world_def empty_connection_def)
qed






section \<open>Properties of the receipt store\<close>

lemma bun_size_defined: "bun_size fs path \<noteq> Undefined"
  by (simp add: bun_size_def split: option.splits node.splits)

lemma moveFileToReceipts_never_not_a_file:
  assumes "\<And>path. nul_path_error rt path \<noteq> ''Source is not a file: '' @ sourcePath"
  shows "fst (moveFileToReceipts rt io fs sourcePath) \<noteq> Inl (''Source is not a file: '' @ sourcePath)"
  using assms
  by (simp add: moveFileToReceipts_def bun_size_defined Let_def
      split: option.splits rm_result.splits)

lemma moveFileToReceipts_nul_source:
  "has_nul sourcePath \<Longrightarrow>
     moveFileToReceipts rt io fs sourcePath = (Inl (nul_path_error rt sourcePath), fs)"
  by (simp add: moveFileToReceipts_def)

lemma moveFileToReceipts_missing_source:
  "\<not> has_nul sourcePath \<Longrightarrow> \<not> bun_exists fs sourcePath \<Longrightarrow>
     moveFileToReceipts rt io fs sourcePath =
       (Inl (''Source file does not exist: '' @ sourcePath), fs)"
  by (simp add: moveFileToReceipts_def)

lemma moveFileToReceipts_conflict:
  "bun_exists fs sourcePath \<Longrightarrow>
   bun_exists fs (path_join rt (RECEIPTS_DIR rt) (path_basename rt sourcePath)) \<Longrightarrow>
     moveFileToReceipts rt io fs sourcePath =
       (Inl (''File already exists in receipts: '' @ path_basename rt sourcePath), fs)"
  by (auto simp: moveFileToReceipts_def bun_size_defined Let_def bun_exists_def node_at_def
      split: if_splits)

text \<open>
  Claim C6. A source that does not exist raises the not-found error naming the path,
  and a source whose base filename is already in the store raises the conflict error
  naming the filename, both leaving the file system as it was (the lemmas above). A
  source that is a directory does not raise the error \<open>Source is not a file\<close>: the
  test \<open>sourceFile.size === undefined\<close> is never true, and the directory is reported
  as a source that does not exist.
\<close>

theorem moveFileToReceipts_directory_source:
  "scans_fs ''/tmp/scans'' = Some Directory
   \<and> moveFileToReceipts vision_off io_ok scans_fs ''/tmp/scans''
       = (Inl ''Source file does not exist: /tmp/scans'', scans_fs)"
  by (simp add: moveFileToReceipts_def bun_exists_def node_at_def has_nul_def scans_fs_def)

lemma moveFileToReceipts_steps:
  assumes src: "node_at fs sourcePath = Some (File bytes)"
    and dest: "fs (path_join rt (RECEIPTS_DIR rt) (path_basename rt sourcePath)) = None"
      "\<not> has_nul (path_join rt (RECEIPTS_DIR rt) (path_basename rt sourcePath))"
    and copy: "copy_error io = None"
  shows "moveFileToReceipts rt io fs sourcePath =
     (let name = path_basename rt sourcePath;
          destPath = path_join rt (RECEIPTS_DIR rt) name;
          fs1 = fs(destPath \<mapsto> File bytes)
      in case clear_error io of
           Some msg \<Rightarrow> (Inl (''Failed to move file: '' @ msg), fs1)
         | None \<Rightarrow>
             (case rm_outcome io of
                Spawn_failed msg \<Rightarrow> (Inl (''Failed to move file: '' @ msg), fs1(sourcePath \<mapsto> File []))
              | Rm_refused \<Rightarrow> (Inr name, fs1(sourcePath \<mapsto> File []))
              | Rm_removed \<Rightarrow> (Inr name, fs1(sourcePath := None))))"
proof -
  from node_at_Some [OF src] have n: "\<not> has_nul sourcePath" "fs sourcePath = Some (File bytes)"
    by simp_all
  from src n dest copy show ?thesis
    by (simp add: moveFileToReceipts_def bun_exists_def bun_size_def file_bytes_def node_at_def
        Let_def split: option.splits rm_result.splits)
qed

text \<open>
  Claim C7. If the copy to the destination succeeds and the step that removes the
  source then fails, the destination holds the content and the source is still
  there. When it is the clearing write that fails, the move throws and the source
  still holds its bytes, so that the same content is at both places; and for every
  source there is such a run.
\<close>

theorem moveFileToReceipts_not_atomic:
  assumes src: "node_at fs sourcePath = Some (File bytes)"
    and dest: "fs (path_join rt (RECEIPTS_DIR rt) (path_basename rt sourcePath)) = None"
      "\<not> has_nul (path_join rt (RECEIPTS_DIR rt) (path_basename rt sourcePath))"
    and copy: "copy_error io = None"
    and failed: "removal_failed io"
  shows "(case moveFileToReceipts rt io fs sourcePath of
     (outcome, fs') \<Rightarrow>
       fs' (path_join rt (RECEIPTS_DIR rt) (path_basename rt sourcePath)) = Some (File bytes)
       \<and> fs' sourcePath \<noteq> None
       \<and> (clear_error io \<noteq> None \<longrightarrow>
            fs' sourcePath = Some (File bytes)
            \<and> outcome = Inl (''Failed to move file: '' @ the (clear_error io))))
   \<and> (\<exists>io'. copy_error io' = None \<and> removal_failed io'
        \<and> (case moveFileToReceipts rt io' fs sourcePath of
             (outcome, fs') \<Rightarrow>
               fs' (path_join rt (RECEIPTS_DIR rt) (path_basename rt sourcePath))
                 = Some (File bytes)
               \<and> fs' sourcePath = Some (File bytes)))"
proof -
  from node_at_Some [OF src] have s: "fs sourcePath = Some (File bytes)" by simp
  have ne: "path_join rt (RECEIPTS_DIR rt) (path_basename rt sourcePath) \<noteq> sourcePath"
    using s dest(1) by auto
  have first: "case moveFileToReceipts rt io fs sourcePath of
     (outcome, fs') \<Rightarrow>
       fs' (path_join rt (RECEIPTS_DIR rt) (path_basename rt sourcePath)) = Some (File bytes)
       \<and> fs' sourcePath \<noteq> None
       \<and> (clear_error io \<noteq> None \<longrightarrow>
            fs' sourcePath = Some (File bytes)
            \<and> outcome = Inl (''Failed to move file: '' @ the (clear_error io)))"
    unfolding moveFileToReceipts_steps [OF src dest copy] Let_def
    using ne s failed
    by (auto simp: removal_failed_def split: option.splits rm_result.splits)
  let ?io = "\<lparr> copy_error = None, clear_error = Some [], rm_outcome = Rm_removed \<rparr>"
  have c: "copy_error ?io = None" by simp
  have "copy_error ?io = None \<and> removal_failed ?io
        \<and> (case moveFileToReceipts rt ?io fs sourcePath of
             (outcome, fs') \<Rightarrow>
               fs' (path_join rt (RECEIPTS_DIR rt) (path_basename rt sourcePath))
                 = Some (File bytes)
               \<and> fs' sourcePath = Some (File bytes))"
    unfolding moveFileToReceipts_steps [OF src dest c] Let_def
    using ne s by (simp add: removal_failed_def)
  then have second: "\<exists>io'. copy_error io' = None \<and> removal_failed io'
        \<and> (case moveFileToReceipts rt io' fs sourcePath of
             (outcome, fs') \<Rightarrow>
               fs' (path_join rt (RECEIPTS_DIR rt) (path_basename rt sourcePath))
                 = Some (File bytes)
               \<and> fs' sourcePath = Some (File bytes))"
    by (rule exI)
  from first second show ?thesis by (rule conjI)
qed

lemma inbox_source: "node_at inbox_fs ''/tmp/a.pdf'' = Some (File ''%PDF'')"
  by (simp add: node_at_def has_nul_def inbox_fs_def)

lemma inbox_basename: "path_basename vision_off ''/tmp/a.pdf'' = ''a.pdf''"
  by (simp add: vision_off_def)

lemma inbox_dest:
  "inbox_fs (path_join vision_off (RECEIPTS_DIR vision_off) (path_basename vision_off ''/tmp/a.pdf'')) = None"
  "\<not> has_nul (path_join vision_off (RECEIPTS_DIR vision_off) (path_basename vision_off ''/tmp/a.pdf''))"
  by (simp_all add: inbox_fs_def has_nul_def vision_off_def)

lemma inbox_dest_name:
  "path_join vision_off (RECEIPTS_DIR vision_off) ''a.pdf'' = ''/home/u/receipts/a.pdf''"
  by (simp add: vision_off_def)

theorem moveFileToReceipts_not_atomic_witness:
  "node_at inbox_fs ''/tmp/a.pdf'' = Some (File ''%PDF'')
   \<and> inbox_fs ''/home/u/receipts/a.pdf'' = None
   \<and> copy_error io_clear_fails = None
   \<and> removal_failed io_clear_fails
   \<and> fst (moveFileToReceipts vision_off io_clear_fails inbox_fs ''/tmp/a.pdf'')
       = Inl ''Failed to move file: EACCES: permission denied''
   \<and> snd (moveFileToReceipts vision_off io_clear_fails inbox_fs ''/tmp/a.pdf'')
        ''/home/u/receipts/a.pdf'' = Some (File ''%PDF'')
   \<and> snd (moveFileToReceipts vision_off io_clear_fails inbox_fs ''/tmp/a.pdf'')
        ''/tmp/a.pdf'' = Some (File ''%PDF'')"
proof -
  have io: "copy_error io_clear_fails = None"
    "clear_error io_clear_fails = Some ''EACCES: permission denied''"
    "removal_failed io_clear_fails"
    by (simp_all add: io_clear_fails_def removal_failed_def)
  have none: "inbox_fs ''/home/u/receipts/a.pdf'' = None"
    by (simp add: inbox_fs_def)
  from moveFileToReceipts_not_atomic [OF inbox_source inbox_dest io(1) io(3)] none
  show ?thesis
    by (simp add: io inbox_dest_name inbox_basename inbox_source case_prod_beta)
qed

section \<open>Properties of the path resolver\<close>

lemma existing_loop_filter:
  "\<forall>path \<in> set paths. \<not> has_nul path \<Longrightarrow>
     existing_loop rt fs paths acc = Inr (acc @ filter (bun_exists fs) paths)"
  by (induction paths arbitrary: acc) simp_all

lemma existing_loop_nul:
  "\<exists>path \<in> set paths. has_nul path \<Longrightarrow>
     \<exists>path \<in> set paths. has_nul path \<and> existing_loop rt fs paths acc = Inl (nul_path_error rt path)"
proof (induction paths arbitrary: acc)
  case Nil
  then show ?case by simp
next
  case (Cons p ps)
  show ?case
  proof (cases "has_nul p")
    case True
    then show ?thesis by simp
  next
    case False
    with Cons.prems have "\<exists>path \<in> set ps. has_nul path" by auto
    from Cons.IH [OF this] False show ?thesis by auto
  qed
qed

lemma paths_loop_map: "paths_loop rt ls acc = acc @ map (line_path rt) ls"
  by (induction ls arbitrary: acc) simp_all

lemma dropWhile_all: "\<forall>c \<in> set s. P c \<Longrightarrow> dropWhile P s = []"
  by (induction s) simp_all

lemma trim_white_space: "\<forall>c \<in> set s. is_white_space c \<Longrightarrow> trim s = []"
  by (simp add: trim_def dropWhile_all)

lemma candidate_paths_lines:
  "candidate_paths rt pastedText =
     map (line_path rt) (filter (\<lambda>line. line \<noteq> []) (map trim (split_newline (trim pastedText))))"
  by (simp add: candidate_paths_def paths_loop_map Let_def)

lemma trim_Nil: "trim [] = []"
  by (simp add: trim_def)

lemma candidate_paths_blank: "trim pastedText = [] \<Longrightarrow> candidate_paths rt pastedText = []"
  by (simp add: candidate_paths_lines trim_Nil)

lemma parseFilePaths_loop:
  "parseFilePaths rt fs pastedText = existing_loop rt fs (candidate_paths rt pastedText) []"
  by (simp add: parseFilePaths_def candidate_paths_blank Let_def)

text \<open>
  Where no candidate holds a NUL code unit, \<open>parseFilePaths\<close> returns the candidate
  paths, one for each non-empty trimmed line, that exist at the call (as regular
  files), in the order of the input and with their repetitions; and on an empty
  input, and on white space only, it returns the empty list.
\<close>

lemma parseFilePaths_existing:
  "(\<forall>path \<in> set (candidate_paths rt pastedText). \<not> has_nul path) \<longrightarrow>
     parseFilePaths rt fs pastedText = Inr (filter (bun_exists fs) (candidate_paths rt pastedText))"
  "candidate_paths rt pastedText =
     map (line_path rt)
       (filter (\<lambda>line. line \<noteq> []) (map trim (split_newline (trim pastedText))))"
  "(\<forall>c \<in> set pastedText. is_white_space c) \<longrightarrow> parseFilePaths rt fs pastedText = Inr []"
proof -
  show "(\<forall>path \<in> set (candidate_paths rt pastedText). \<not> has_nul path) \<longrightarrow>
     parseFilePaths rt fs pastedText = Inr (filter (bun_exists fs) (candidate_paths rt pastedText))"
    by (simp add: parseFilePaths_loop existing_loop_filter)
  show "candidate_paths rt pastedText =
     map (line_path rt)
       (filter (\<lambda>line. line \<noteq> []) (map trim (split_newline (trim pastedText))))"
    by (rule candidate_paths_lines)
  show "(\<forall>c \<in> set pastedText. is_white_space c) \<longrightarrow> parseFilePaths rt fs pastedText = Inr []"
    by (simp add: parseFilePaths_def trim_white_space)
qed

lemma parseFilePaths_throws:
  "\<exists>path \<in> set (candidate_paths rt pastedText). has_nul path \<Longrightarrow>
     \<exists>path \<in> set (candidate_paths rt pastedText).
        has_nul path \<and> parseFilePaths rt fs pastedText = Inl (nul_path_error rt path)"
  unfolding parseFilePaths_loop by (rule existing_loop_nul)

lemma trim_pasted_paths:
  "trim pasted_paths = ''/tmp/a.pdf'' @ [CHR 0x0A] @ ''/tmp/nope.pdf'' @ [CHR 0x0A, CHR 0x0A]
     @ ''/tmp/a.pdf''"
  by (simp add: trim_def pasted_paths_def is_white_space_def)

lemma pasted_paths_lines:
  "filter (\<lambda>line. line \<noteq> []) (map trim (split_newline (trim pasted_paths)))
     = [''/tmp/a.pdf'', ''/tmp/nope.pdf'', ''/tmp/a.pdf'']"
  by (simp add: trim_pasted_paths) (simp add: trim_def is_white_space_def)

lemma line_path_plain:
  "line_path vision_off ''/tmp/a.pdf'' = ''/tmp/a.pdf''"
  "line_path vision_off ''/tmp/nope.pdf'' = ''/tmp/nope.pdf''"
  by (simp_all add: line_path_def)

lemma pasted_paths_candidates:
  "candidate_paths vision_off pasted_paths = [''/tmp/a.pdf'', ''/tmp/nope.pdf'', ''/tmp/a.pdf'']"
  by (simp add: candidate_paths_lines pasted_paths_lines line_path_plain)

lemma inbox_exists:
  "bun_exists inbox_fs ''/tmp/a.pdf''" "\<not> bun_exists inbox_fs ''/tmp/nope.pdf''"
  by (simp_all add: bun_exists_def node_at_def has_nul_def inbox_fs_def)

lemma pasted_paths_parsed:
  "parseFilePaths vision_off inbox_fs pasted_paths = Inr [''/tmp/a.pdf'', ''/tmp/a.pdf'']"
proof -
  have "\<forall>path \<in> set (candidate_paths vision_off pasted_paths). \<not> has_nul path"
    by (simp add: pasted_paths_candidates has_nul_def)
  with parseFilePaths_existing(1) [of vision_off pasted_paths inbox_fs]
  show ?thesis
    by (simp add: pasted_paths_candidates inbox_exists)
qed

text \<open>
  Claim C8. A candidate that holds a NUL code unit names no file, so it is a
  candidate that does not exist; \<open>parseFilePaths\<close> does not drop it: \<open>Bun.file\<close>
  throws on it in the second loop, outside any \<open>try\<close>, and the call ends with the
  error. (Where no candidate holds a NUL code unit the claim holds: lemma
  \<open>parseFilePaths_existing\<close>.)
\<close>

theorem parseFilePaths_nul_candidate:
  "candidate_paths vision_off pasted_nul = [''/tmp/nope.pdf'' @ [CHR 0x00]]
   \<and> \<not> bun_exists inbox_fs (''/tmp/nope.pdf'' @ [CHR 0x00])
   \<and> parseFilePaths vision_off inbox_fs pasted_nul
       = Inl ''The argument must be a string without null bytes''"
proof -
  have t: "trim pasted_nul = pasted_nul"
    by (simp add: trim_def pasted_nul_def is_white_space_def)
  have l: "filter (\<lambda>line. line \<noteq> []) (map trim (split_newline (trim pasted_nul))) = [pasted_nul]"
    unfolding t by (simp add: pasted_nul_def) (simp add: trim_def is_white_space_def)
  have p: "line_path vision_off pasted_nul = pasted_nul"
    by (simp add: line_path_def pasted_nul_def)
  have c: "candidate_paths vision_off pasted_nul = [pasted_nul]"
    by (simp add: candidate_paths_lines l p)
  have n: "has_nul pasted_nul" by (simp add: has_nul_def pasted_nul_def)
  have e: "nul_path_error vision_off pasted_nul = ''The argument must be a string without null bytes''"
    by (simp add: vision_off_def)
  have "parseFilePaths vision_off inbox_fs pasted_nul
       = Inl ''The argument must be a string without null bytes''"
    by (simp add: parseFilePaths_loop c n e)
  moreover have "\<not> bun_exists inbox_fs pasted_nul"
    using n by (simp add: bun_exists_def node_at_def)
  ultimately show ?thesis
    using c by (simp add: pasted_nul_def)
qed

end
